theory Spec2Isabelle
  imports Complex_Main
begin

section \<open>Python text\<close>

text \<open>
  A Python \<open>str\<close> is a sequence of Unicode code points, so text is a list of code
  points (natural numbers), not of bytes. Literals of the source are written
  \<open>lit ''...''\<close>.
\<close>

type_synonym ustr = "nat list"

abbreviation (input) lit :: "string \<Rightarrow> ustr" where
  "lit s \<equiv> map of_char s"

abbreviation (input) cp :: "char \<Rightarrow> nat" where
  "cp c \<equiv> of_char c"

text \<open>
  The Unicode character database belongs to the Python runtime, not to the
  repository. Its ASCII rows are written out below; the rows of the code points from
  128 on are a parameter of every function that consults them:
  \<^item> \<open>db_isspace c\<close>: \<open>c\<close> is whitespace (\<open>str.isspace\<close>, the class \<open>\s\<close>);
  \<^item> \<open>db_isalnum c\<close>: \<open>c\<close> is alphanumeric (the class \<open>\w\<close> is this or the underscore);
  \<^item> \<open>db_lower s i\<close>: the lower-case expansion of the character at index \<open>i\<close> of
    \<open>s\<close> (one character may expand to several, and capital sigma depends on its
    neighbours, hence the whole text and the index);
  \<^item> \<open>db_ieq p c\<close>: under \<open>re.I\<close> the character \<open>c\<close> matches the lower-case
    ASCII pattern letter \<open>p\<close>.
\<close>

record unicode_db =
  db_isspace :: "nat \<Rightarrow> bool"
  db_isalnum :: "nat \<Rightarrow> bool"
  db_lower :: "ustr \<Rightarrow> nat \<Rightarrow> ustr"
  db_ieq :: "nat \<Rightarrow> nat \<Rightarrow> bool"

definition is_ascii :: "nat \<Rightarrow> bool" where
  "is_ascii c = (c < 128)"

definition py_isspace :: "unicode_db \<Rightarrow> nat \<Rightarrow> bool" where
  "py_isspace U c =
     (if is_ascii c then (9 \<le> c \<and> c \<le> 13) \<or> (28 \<le> c \<and> c \<le> 32)
      else db_isspace U c)"

definition re_word :: "unicode_db \<Rightarrow> nat \<Rightarrow> bool" where
  "re_word U c =
     (if is_ascii c
      then (48 \<le> c \<and> c \<le> 57) \<or> (65 \<le> c \<and> c \<le> 90) \<or> c = 95 \<or> (97 \<le> c \<and> c \<le> 122)
      else db_isalnum U c)"

definition ascii_lower :: "nat \<Rightarrow> nat" where
  "ascii_lower c = (if 65 \<le> c \<and> c \<le> 90 then c + 32 else c)"

fun lower_from :: "unicode_db \<Rightarrow> ustr \<Rightarrow> nat \<Rightarrow> ustr \<Rightarrow> ustr" where
  "lower_from U s i [] = []"
| "lower_from U s i (c # cs) =
     (if is_ascii c then [ascii_lower c] else db_lower U s i) @ lower_from U s (Suc i) cs"

definition py_lower :: "unicode_db \<Rightarrow> ustr \<Rightarrow> ustr" where
  "py_lower U s = lower_from U s 0 s"

definition py_strip :: "unicode_db \<Rightarrow> ustr \<Rightarrow> ustr" where
  "py_strip U s = rev (dropWhile (py_isspace U) (rev (dropWhile (py_isspace U) s)))"

definition startswith :: "ustr \<Rightarrow> ustr \<Rightarrow> bool" where
  "startswith s p = (take (length p) s = p)"

text \<open>\<open>py_contains s p\<close> is Python's \<open>p in s\<close> on strings.\<close>

fun py_contains :: "ustr \<Rightarrow> ustr \<Rightarrow> bool" where
  "py_contains [] p = (p = [])"
| "py_contains (c # cs) p = (startswith (c # cs) p \<or> py_contains cs p)"

text \<open>
  \<open>py_split_sep sep n s\<close> is \<open>s.split(sep, n)\<close> for a one-character separator: at
  most \<open>n\<close> splits, empty fields kept. \<open>py_split_ws U s\<close> is \<open>s.split()\<close>: fields
  separated by runs of whitespace, no empty field.
\<close>

fun py_split_sep :: "nat \<Rightarrow> nat \<Rightarrow> ustr \<Rightarrow> ustr list" where
  "py_split_sep sep 0 s = [s]"
| "py_split_sep sep (Suc n) s =
     (if sep \<in> set s
      then takeWhile (\<lambda>c. c \<noteq> sep) s # py_split_sep sep n (tl (dropWhile (\<lambda>c. c \<noteq> sep) s))
      else [s])"

fun split_ws_acc :: "unicode_db \<Rightarrow> ustr \<Rightarrow> ustr \<Rightarrow> ustr list" where
  "split_ws_acc U w [] = (if w = [] then [] else [rev w])"
| "split_ws_acc U w (c # cs) =
     (if py_isspace U c
      then (if w = [] then split_ws_acc U [] cs else rev w # split_ws_acc U [] cs)
      else split_ws_acc U (c # w) cs)"

definition py_split_ws :: "unicode_db \<Rightarrow> ustr \<Rightarrow> ustr list" where
  "py_split_ws U s = split_ws_acc U [] s"

section \<open>Regular expressions\<close>

text \<open>
  The fragment of \<open>re\<close> that \<open>strip_wakeword\<close> uses: single characters, greedy
  \<open>*\<close> and \<open>+\<close> on a character class, sequence and the greedy optional group.
  \<open>rx_match r s\<close> lists what is left of \<open>s\<close> after each way of matching \<open>r\<close> at its
  start, in the order in which the backtracking matcher tries them; the head of the
  list is the match that \<open>re\<close> reports.
\<close>

datatype rx =
    Eps
  | Chr "nat \<Rightarrow> bool"
  | Star "nat \<Rightarrow> bool"
  | Plus "nat \<Rightarrow> bool"
  | Seq rx rx
  | Opt rx

fun star_ends :: "(nat \<Rightarrow> bool) \<Rightarrow> ustr \<Rightarrow> ustr list" where
  "star_ends P [] = [[]]"
| "star_ends P (c # cs) = (if P c then star_ends P cs @ [c # cs] else [c # cs])"

fun rx_match :: "rx \<Rightarrow> ustr \<Rightarrow> ustr list" where
  "rx_match Eps s = [s]"
| "rx_match (Chr P) s = (case s of [] \<Rightarrow> [] | c # cs \<Rightarrow> if P c then [cs] else [])"
| "rx_match (Star P) s = star_ends P s"
| "rx_match (Plus P) s = (case s of [] \<Rightarrow> [] | c # cs \<Rightarrow> if P c then star_ends P cs else [])"
| "rx_match (Seq a b) s = concat (map (rx_match b) (rx_match a s))"
| "rx_match (Opt a) s = rx_match a s @ [s]"

text \<open>A pattern letter under \<open>re.I\<close>; \<open>p\<close> is a lower-case ASCII letter.\<close>

definition re_ieq :: "unicode_db \<Rightarrow> nat \<Rightarrow> nat \<Rightarrow> bool" where
  "re_ieq U p c = (if is_ascii c then ascii_lower c = p else db_ieq U p c)"

fun rx_lit :: "unicode_db \<Rightarrow> ustr \<Rightarrow> rx" where
  "rx_lit U [] = Eps"
| "rx_lit U (p # ps) = Seq (Chr (re_ieq U p)) (rx_lit U ps)"

text \<open>
  \<^verbatim>\<open>re.sub(pattern, '', s, flags=re.I)\<close> for a pattern anchored with \<^verbatim>\<open>^\<close> that
  cannot match the empty string: the match at the start, when there is one, is cut off.
\<close>

definition re_sub_anchored :: "rx \<Rightarrow> ustr \<Rightarrow> ustr" where
  "re_sub_anchored r s = (case rx_match r s of [] \<Rightarrow> s | rest # _ \<Rightarrow> rest)"

section \<open>Wakeword helpers\<close>

definition WAKEWORD :: ustr where
  "WAKEWORD = lit ''hey jarvis''"

text \<open>\<^verbatim>\<open>re.sub(r"[^\w\s]", "", t).lower().strip()\<close>\<close>

definition normalize_text :: "unicode_db \<Rightarrow> ustr \<Rightarrow> ustr" where
  "normalize_text U t =
     py_strip U (py_lower U (filter (\<lambda>c. re_word U c \<or> py_isspace U c) t))"

definition has_wakeword :: "unicode_db \<Rightarrow> ustr \<Rightarrow> bool" where
  "has_wakeword U t =
     (if t = [] then False
      else let norm = normalize_text U t
           in startswith norm WAKEWORD \<or> startswith norm (lit ''jarvis''))"

text \<open>\<^verbatim>\<open>^\s*(hey[,]*\s+)?jarvis[,:\s-]*\<close>\<close>

definition wake_rx :: "unicode_db \<Rightarrow> rx" where
  "wake_rx U =
     Seq (Star (py_isspace U))
       (Seq (Opt (Seq (rx_lit U (lit ''hey''))
                   (Seq (Star (\<lambda>c. c = cp CHR '',''))
                        (Plus (py_isspace U)))))
         (Seq (rx_lit U (lit ''jarvis''))
              (Star (\<lambda>c. c = cp CHR '','' \<or> c = cp CHR '':'' \<or> py_isspace U c
                          \<or> c = cp CHR ''-''))))"

definition strip_wakeword :: "unicode_db \<Rightarrow> ustr \<Rightarrow> ustr" where
  "strip_wakeword U t =
     (if t = [] then t
      else let norm = py_strip U t;
               stripped = py_strip U (re_sub_anchored (wake_rx U) norm)
           in if stripped \<noteq> [] then stripped else [])"

section \<open>Effects\<close>

text \<open>
  Every call of a library, of the operating system or of the user interface is an
  event of the trace, in program order. A computation yields the events it performed
  and either its value or the exception that leaves it. \<open>pyexn\<close> stands for an
  instance of \<open>Exception\<close>, carrying its \<open>str\<close>; that is what the source's
  \<^verbatim>\<open>except Exception\<close> handlers catch. The calls that report failure through
  their value, or not at all (\<open>webbrowser.open\<close>, \<open>speak\<close>, \<open>log_message\<close>, the
  dialogs and the camera), are events that do not raise.
\<close>

datatype pyexn = PyException ustr

fun exn_str :: "pyexn \<Rightarrow> ustr" where
  "exn_str (PyException m) = m"

definition IndexError :: pyexn where
  "IndexError = PyException (lit ''list index out of range'')"

datatype event =
    Log ustr
  | Speak ustr
  | WebbrowserOpen ustr
  | Popen "ustr list" bool
  | Startfile ustr
  | WikipediaSetLang ustr
  | WikipediaSummary ustr nat
  | GoogleSearch ustr nat
  | RequestsGet ustr nat
  | ParseHtml
  | ImageGrab
  | AskSaveAs ustr
  | ImageSave ustr
  | ShowWarning ustr ustr
  | CapRead
  | Imwrite ustr
  | EntryDelete
  | WakeLabel ustr
  | Listen nat nat
  | Sleep rat

type_synonym 'a io = "event list \<times> (pyexn + 'a)"

definition io_return :: "'a \<Rightarrow> 'a io" where
  "io_return x = ([], Inr x)"

definition io_raise :: "pyexn \<Rightarrow> 'a io" where
  "io_raise e = ([], Inl e)"

definition io_bind :: "'a io \<Rightarrow> ('a \<Rightarrow> 'b io) \<Rightarrow> 'b io" where
  "io_bind m f =
     (case m of
        (es, Inl e) \<Rightarrow> (es, Inl e)
      | (es, Inr x) \<Rightarrow> (case f x of (es', r) \<Rightarrow> (es @ es', r)))"

definition io_then :: "unit io \<Rightarrow> 'b io \<Rightarrow> 'b io" where
  "io_then m k = io_bind m (\<lambda>_. k)"

text \<open>\<^verbatim>\<open>try: m  except Exception as e: h e\<close>\<close>

definition io_try :: "'a io \<Rightarrow> (pyexn \<Rightarrow> 'a io) \<Rightarrow> 'a io" where
  "io_try m h =
     (case m of
        (es, Inl e) \<Rightarrow> (case h e of (es', r) \<Rightarrow> (es @ es', r))
      | (es, Inr x) \<Rightarrow> (es, Inr x))"

definition emits :: "event list \<Rightarrow> unit io" where
  "emits es = (es, Inr ())"

text \<open>A call of a collaborator: the event, and what the collaborator answers.\<close>

definition call :: "event \<Rightarrow> pyexn + 'a \<Rightarrow> 'a io" where
  "call ev answer = ([ev], answer)"

definition may_raise :: "pyexn option \<Rightarrow> pyexn + unit" where
  "may_raise r = (case r of None \<Rightarrow> Inr () | Some e \<Rightarrow> Inl e)"

text \<open>
  The world outside the program. Each field is what the named library call answers
  to its arguments, the same answer throughout the handling of one command; \<open>Inl e\<close>
  and \<open>Some e\<close> (for calls without a value) mean that the call raises \<open>e\<close>. \<open>google_search\<close> is \<open>None\<close> when the import of the module failed.
  A fetched page is given by its status code and by what \<open>BeautifulSoup\<close> makes of
  it: \<open>title_string\<close> is \<open>soup.title.string\<close> (\<open>None\<close> when either is missing),
  \<open>first_p\<close> the text of the first \<open>p\<close> element.
\<close>

record page =
  title_string :: "ustr option"
  first_p :: "ustr option"

record response =
  status_code :: int
  soup :: "pyexn + page"

record env =
  ucd :: unicode_db
  platform_system :: ustr
  expanduser :: "ustr \<Rightarrow> ustr"
  path_exists :: "ustr \<Rightarrow> bool"
  popen :: "ustr list \<Rightarrow> pyexn option"
  startfile :: "ustr \<Rightarrow> pyexn option"
  wikipedia_set_lang :: "pyexn option"
  wikipedia_summary :: "ustr \<Rightarrow> pyexn + ustr"
  google_search :: "(ustr \<Rightarrow> pyexn + ustr list) option"
  requests_get :: "ustr \<Rightarrow> pyexn + response"
  requote_uri :: "ustr \<Rightarrow> ustr"
  image_grab :: "pyexn option"
  asksaveasfilename :: "ustr \<Rightarrow> ustr"
  image_save :: "ustr \<Rightarrow> pyexn option"
  cap_opened :: bool
  cap_read_ok :: bool

definition WIKI_SENTENCES :: nat where
  "WIKI_SENTENCES = 2"

definition subprocess_Popen :: "env \<Rightarrow> ustr list \<Rightarrow> bool \<Rightarrow> unit io" where
  "subprocess_Popen E args shell = call (Popen args shell) (may_raise (popen E args))"

definition os_startfile :: "env \<Rightarrow> ustr \<Rightarrow> unit io" where
  "os_startfile E path = call (Startfile path) (may_raise (startfile E path))"

definition system_name :: "env \<Rightarrow> ustr" where
  "system_name E = py_lower (ucd E) (platform_system E)"

definition google_search_url :: "env \<Rightarrow> ustr \<Rightarrow> ustr" where
  "google_search_url E q = lit ''https://www.google.com/search?q='' @ requote_uri E q"

section \<open>Search helpers\<close>

definition search_wikipedia :: "env \<Rightarrow> ustr \<Rightarrow> ustr option io" where
  "search_wikipedia E query =
     io_try
       (io_then (call (WikipediaSetLang (lit ''en'')) (may_raise (wikipedia_set_lang E)))
          (io_bind (call (WikipediaSummary query WIKI_SENTENCES) (wikipedia_summary E query))
             (\<lambda>summary. io_return (Some summary))))
       (\<lambda>e. io_return None)"

text \<open>
  The body of the \<^verbatim>\<open>for url in urls\<close> loop of \<open>google_first_snippet\<close>: \<open>Some text\<close>
  is \<^verbatim>\<open>return text\<close>, \<open>None\<close> is \<^verbatim>\<open>continue\<close>.
\<close>

definition nl2 :: ustr where
  "nl2 = [10, 10]"

definition fetch_snippet :: "env \<Rightarrow> ustr \<Rightarrow> ustr option io" where
  "fetch_snippet E url =
     io_try
       (io_bind (call (RequestsGet url 6) (requests_get E url)) (\<lambda>resp.
          if status_code resp \<noteq> 200 then io_return None
          else io_bind (call ParseHtml (soup resp)) (\<lambda>pg.
            let title = (case title_string pg of
                           None \<Rightarrow> url
                         | Some s \<Rightarrow> if s \<noteq> [] then py_strip (ucd E) s else url);
                snippet = (case first_p pg of None \<Rightarrow> [] | Some p \<Rightarrow> py_strip (ucd E) p)
            in if snippet \<noteq> []
               then io_return (Some (title @ nl2 @ snippet @ nl2 @ lit ''Source: '' @ url))
               else io_return (Some (title @ nl2 @ lit ''Source: '' @ url)))))
       (\<lambda>e. io_return None)"

fun fetch_loop :: "env \<Rightarrow> ustr list \<Rightarrow> ustr option io" where
  "fetch_loop E [] = io_return None"
| "fetch_loop E (url # urls) =
     (case fetch_snippet E url of
        (es, Inl e) \<Rightarrow> (es, Inl e)
      | (es, Inr (Some text)) \<Rightarrow> (es, Inr (Some text))
      | (es, Inr None) \<Rightarrow> (case fetch_loop E urls of (es', r) \<Rightarrow> (es @ es', r)))"

text \<open>
  The first \<^verbatim>\<open>try\<close> of \<open>google_first_snippet\<close> yields the URLs, or \<open>None\<close> where
  the source returns \<open>None\<close> from inside it.
\<close>

definition google_first_snippet :: "env \<Rightarrow> ustr \<Rightarrow> ustr option io" where
  "google_first_snippet E query =
     io_bind
       (io_try
          (case google_search E of
             Some search \<Rightarrow>
               io_bind (call (GoogleSearch query 5) (search query)) (\<lambda>urls. io_return (Some urls))
           | None \<Rightarrow>
               io_then (emits [WebbrowserOpen (google_search_url E query)]) (io_return None))
          (\<lambda>e. io_then (emits [WebbrowserOpen (google_search_url E query)]) (io_return None)))
       (\<lambda>found. case found of None \<Rightarrow> io_return None | Some urls \<Rightarrow> fetch_loop E urls)"

section \<open>OS control helpers\<close>

text \<open>The \<^verbatim>\<open>for candidate in (["gedit"], ["xed"], ["kate"])\<close> loop: did one start?\<close>

fun try_editors :: "env \<Rightarrow> ustr list list \<Rightarrow> bool io" where
  "try_editors E [] = io_return False"
| "try_editors E (candidate # rest) =
     (case popen E candidate of
        None \<Rightarrow> ([Popen candidate False], Inr True)
      | Some e \<Rightarrow> (case try_editors E rest of (es, r) \<Rightarrow> (Popen candidate False # es, r)))"

definition open_application :: "env \<Rightarrow> ustr \<Rightarrow> bool io" where
  "open_application E app_name =
     (let system = system_name E;
          app_name_lower = py_lower (ucd E) app_name
      in if py_contains app_name_lower (lit ''notepad'') \<or> py_contains app_name_lower (lit ''text'')
         then (if system = lit ''windows''
               then io_then (subprocess_Popen E [lit ''notepad''] False) (io_return True)
               else io_bind (try_editors E [[lit ''gedit''], [lit ''xed''], [lit ''kate'']])
                      (\<lambda>started. if started then io_return True
                         else io_then
                                (subprocess_Popen E [lit ''xdg-open'', expanduser E (lit ''~'')] False)
                                (io_return True)))
         else if py_contains app_name_lower (lit ''chrome'')
                 \<or> py_contains app_name_lower (lit ''google chrome'')
         then io_try
                (io_then
                   (if system = lit ''windows''
                    then subprocess_Popen E [lit ''start'', lit ''chrome''] True
                    else if system = lit ''darwin''
                    then subprocess_Popen E [lit ''open'', lit ''-a'', lit ''Google Chrome''] False
                    else subprocess_Popen E [lit ''google-chrome''] False)
                   (io_return True))
                (\<lambda>e. io_then (emits [WebbrowserOpen (lit ''https://www.google.com'')])
                        (io_return True))
         else if py_contains app_name_lower (lit ''browser'')
                 \<or> py_contains app_name_lower (lit ''firefox'')
         then io_then (emits [WebbrowserOpen (lit ''https://www.google.com'')]) (io_return True)
         else io_try
                (io_then
                   (if system = lit ''windows'' then os_startfile E app_name
                    else if system = lit ''darwin''
                    then subprocess_Popen E [lit ''open'', lit ''-a'', app_name] False
                    else subprocess_Popen E [app_name] False)
                   (io_return True))
                (\<lambda>e. io_return False))"

definition open_folder :: "env \<Rightarrow> ustr \<Rightarrow> (bool \<times> ustr) io" where
  "open_folder E path0 =
     io_try
       (let path = expanduser E path0
        in if \<not> path_exists E path then io_return (False, lit ''Path does not exist'')
           else let system = system_name E
                in io_then
                     (if system = lit ''windows'' then os_startfile E path
                      else if system = lit ''darwin''
                      then subprocess_Popen E [lit ''open'', path] False
                      else subprocess_Popen E [lit ''xdg-open'', path] False)
                     (io_return (True, lit ''Opened'')))
       (\<lambda>e. io_return (False, exn_str e))"

definition system_shutdown :: "env \<Rightarrow> bool \<Rightarrow> (bool \<times> ustr) io" where
  "system_shutdown E confirm =
     (if \<not> confirm then io_return (False, lit ''Confirmation required'')
      else let system = system_name E
           in io_try
                (io_then
                   (if system = lit ''windows''
                    then subprocess_Popen E [lit ''shutdown'', lit ''/s'', lit ''/t'', lit ''10''] False
                    else if system = lit ''darwin'' \<or> system = lit ''linux''
                    then subprocess_Popen E [lit ''shutdown'', lit ''-h'', lit ''now''] False
                    else io_return ())
                   (io_return (True, lit ''Shutdown initiated'')))
                (\<lambda>e. io_return (False, exn_str e)))"

definition system_restart :: "env \<Rightarrow> bool \<Rightarrow> (bool \<times> ustr) io" where
  "system_restart E confirm =
     (if \<not> confirm then io_return (False, lit ''Confirmation required'')
      else let system = system_name E
           in io_try
                (io_then
                   (if system = lit ''windows''
                    then subprocess_Popen E [lit ''shutdown'', lit ''/r'', lit ''/t'', lit ''10''] False
                    else if system = lit ''darwin'' \<or> system = lit ''linux''
                    then subprocess_Popen E [lit ''shutdown'', lit ''-r'', lit ''now''] False
                    else io_return ())
                   (io_return (True, lit ''Restart initiated'')))
                (\<lambda>e. io_return (False, exn_str e)))"

section \<open>Command processing\<close>

text \<open>\<open>text_of x \<noteq> []\<close> is the test \<^verbatim>\<open>if x:\<close>; \<open>None\<close> and \<open>""\<close> both fail it.\<close>

definition text_of :: "ustr option \<Rightarrow> ustr" where
  "text_of x = (case x of None \<Rightarrow> [] | Some t \<Rightarrow> t)"

definition capture_photo :: "env \<Rightarrow> unit io" where
  "capture_photo E =
     (if \<not> cap_opened E
      then emits [ShowWarning (lit ''Capture'') (lit ''Camera not running.'')]
      else io_then (emits [CapRead])
             (if \<not> cap_read_ok E
              then emits [ShowWarning (lit ''Capture'') (lit ''Unable to capture photo.'')]
              else io_then (emits [AskSaveAs (lit ''.jpg'')])
                     (let path = asksaveasfilename E (lit ''.jpg'')
                      in if path = [] then io_return ()
                         else emits [Imwrite path, Log (lit ''Photo saved to '' @ path),
                                     Speak (lit ''Photo saved.'')])))"

text \<open>
  \<open>process_command\<close> is a chain of top-level \<^verbatim>\<open>if\<close> statements, each ending in
  \<^verbatim>\<open>return\<close>. Each block is a definition of its own, named \<open>pc_...\<close>, in the order
  of the source.
\<close>

definition pc_open_folder :: "env \<Rightarrow> ustr \<Rightarrow> unit io" where
  "pc_open_folder E text =
     (let parts = py_split_sep (cp CHR '' '') 2 text;
          path = (if length parts \<ge> 3 then parts ! 2 else expanduser E (lit ''~''))
      in io_bind (open_folder E path) (\<lambda>(ok, msg).
           if ok then emits [Log (lit ''Opened folder: '' @ path), Speak (lit ''Opened folder.'')]
           else emits [Log (lit ''Failed to open folder: '' @ msg),
                       Speak (lit ''I could not open that folder.'')]))"

definition pc_open :: "env \<Rightarrow> ustr \<Rightarrow> unit io" where
  "pc_open E text =
     (case py_split_sep (cp CHR '' '') 1 text of
        _ # target # _ \<Rightarrow>
          if startswith target (lit ''http'')
          then emits [WebbrowserOpen target, Speak (lit ''Opening browser.'')]
          else io_bind (open_application E target) (\<lambda>ok.
                 if ok then emits [Log (lit ''Opened application: '' @ target),
                                   Speak (lit ''Opening '' @ target)]
                 else emits [Log (lit ''Failed to open application: '' @ target),
                             Speak (lit ''I could not open that application.'')])
      | _ \<Rightarrow> io_raise IndexError)"

definition pc_shutdown :: "env \<Rightarrow> ustr \<Rightarrow> unit io" where
  "pc_shutdown E text_lower =
     (if py_contains text_lower (lit ''confirm'') \<or> py_contains text_lower (lit ''yes'')
      then io_bind (system_shutdown E True) (\<lambda>(ok, msg).
             emits [Log msg, Speak (lit ''Shutting down. Goodbye.'')])
      else emits
             [Log (lit ''Shutdown requested - confirmation required. Say 'shutdown confirm' to proceed.''),
              Speak (lit ''Shutdown requested. Say shutdown confirm to proceed.'')])"

definition pc_restart :: "env \<Rightarrow> ustr \<Rightarrow> unit io" where
  "pc_restart E text_lower =
     (if py_contains text_lower (lit ''confirm'') \<or> py_contains text_lower (lit ''yes'')
      then io_bind (system_restart E True) (\<lambda>(ok, msg).
             emits [Log msg, Speak (lit ''Restarting now.'')])
      else emits
             [Log (lit ''Restart requested - confirmation required. Say 'restart confirm' to proceed.''),
              Speak (lit ''Restart requested. Say restart confirm to proceed.'')])"

definition pc_screenshot :: "env \<Rightarrow> unit io" where
  "pc_screenshot E =
     io_try
       (io_then (call ImageGrab (may_raise (image_grab E)))
          (io_then (emits [AskSaveAs (lit ''.png'')])
             (let path = asksaveasfilename E (lit ''.png'')
              in if path \<noteq> []
                 then io_then (call (ImageSave path) (may_raise (image_save E path)))
                        (emits [Log (lit ''Screenshot saved to '' @ path),
                                Speak (lit ''Screenshot saved.'')])
                 else emits [Log (lit ''Screenshot cancelled.'')])))
       (\<lambda>e. emits [Log (lit ''Screenshot failed: '' @ exn_str e),
                   Speak (lit ''I could not take a screenshot.'')])"

definition pc_wikipedia :: "env \<Rightarrow> ustr \<Rightarrow> unit io" where
  "pc_wikipedia E text =
     (case py_split_sep (cp CHR '' '') 1 text of
        _ # q # _ \<Rightarrow>
          io_then (emits [Log (lit ''Searching Wikipedia for: '' @ q),
                          Speak (lit ''Searching Wikipedia for '' @ q)])
            (io_bind (search_wikipedia E q) (\<lambda>ans.
               if text_of ans \<noteq> []
               then emits [Log (lit ''Wikipedia: '' @ text_of ans), Speak (text_of ans)]
               else io_then
                      (emits [Log (lit ''No Wikipedia result.''),
                              Speak (lit ''I could not find a wikipedia entry. I'll search the web.'')])
                      (io_bind (google_first_snippet E q) (\<lambda>web_ans.
                         if text_of web_ans \<noteq> []
                         then emits [Log (text_of web_ans), Speak (text_of web_ans)]
                         else emits [Speak (lit ''I couldn't find an answer.'')]))))
      | _ \<Rightarrow> io_raise IndexError)"

definition pc_question :: "env \<Rightarrow> ustr \<Rightarrow> unit io" where
  "pc_question E text =
     io_then (emits [Log (lit ''Question detected: '' @ text), Speak (lit ''Let me look that up.'')])
       (io_bind (search_wikipedia E text) (\<lambda>ans.
          if text_of ans \<noteq> []
          then emits [Log (lit ''Wikipedia: '' @ text_of ans), Speak (text_of ans)]
          else io_bind (google_first_snippet E text) (\<lambda>web_ans.
                 if text_of web_ans \<noteq> []
                 then emits [Log (text_of web_ans), Speak (text_of web_ans)]
                 else emits [WebbrowserOpen (google_search_url E text),
                             Speak (lit ''I opened the browser with search results.'')])))"

text \<open>
  The last block. Its \<^verbatim>\<open>try\<close> yields whether the source returned from inside it.
\<close>

definition pc_web_search :: "env \<Rightarrow> ustr \<Rightarrow> unit io" where
  "pc_web_search E text =
     io_then
       (emits [Log (lit ''No direct action matched. Searching web for: '' @ text),
               Speak (lit ''Searching the web for '' @ text)])
       (io_bind
          (case google_search E of
             None \<Rightarrow> io_return False
           | Some search \<Rightarrow>
               io_try
                 (io_bind (call (GoogleSearch text 5) (search text)) (\<lambda>urls.
                    case urls of
                      [] \<Rightarrow> io_return False
                    | first # _ \<Rightarrow>
                        io_then
                          (emits [WebbrowserOpen first, Log (lit ''Opened '' @ first),
                                  Speak (lit ''I opened the first result in your browser.'')])
                          (io_return True)))
                 (\<lambda>e. io_return False))
          (\<lambda>returned.
             if returned then io_return ()
             else emits [WebbrowserOpen (google_search_url E text),
                         Speak (lit ''I opened the browser with search results.'')]))"

definition QUESTION_WORDS :: "ustr list" where
  "QUESTION_WORDS =
     [lit ''who'', lit ''what'', lit ''when'', lit ''where'', lit ''why'', lit ''how'', lit ''which'']"

definition is_question :: "unicode_db \<Rightarrow> ustr \<Rightarrow> bool" where
  "is_question U text_lower =
     list_ex (\<lambda>w. w \<in> set (py_split_ws U text_lower)) QUESTION_WORDS"

definition process_command :: "env \<Rightarrow> ustr \<Rightarrow> unit io" where
  "process_command E text0 =
     (let U = ucd E;
          text = py_strip U text0
      in if text = [] then io_return ()
         else let text_lower = py_strip U (py_lower U text)
              in if startswith text_lower (lit ''open folder'')
                    \<or> startswith text_lower (lit ''open directory'')
                 then pc_open_folder E text
                 else if startswith text_lower (lit ''open '')
                         \<or> startswith text_lower (lit ''launch '')
                 then pc_open E text
                 else if py_contains text_lower (lit ''shutdown'')
                 then pc_shutdown E text_lower
                 else if py_contains text_lower (lit ''restart'')
                         \<or> py_contains text_lower (lit ''reboot'')
                 then pc_restart E text_lower
                 else if py_contains text_lower (lit ''screenshot'')
                         \<or> py_contains text_lower (lit ''screen shot'')
                 then pc_screenshot E
                 else if py_contains text_lower (lit ''capture'')
                         \<and> (py_contains text_lower (lit ''photo'')
                              \<or> py_contains text_lower (lit ''picture''))
                 then capture_photo E
                 else if startswith text_lower (lit ''wikipedia '')
                         \<or> startswith text_lower (lit ''wiki '')
                 then pc_wikipedia E text
                 else if is_question U text_lower
                 then pc_question E text
                 else pc_web_search E text)"

definition on_command :: "env \<Rightarrow> ustr \<Rightarrow> unit io" where
  "on_command E entry =
     (let U = ucd E;
          txt = py_strip U entry
      in if txt = [] then io_return ()
         else io_then (emits [EntryDelete])
                (let txt' = (if has_wakeword U txt
                             then (let s = strip_wakeword U txt in if s \<noteq> [] then s else txt)
                             else txt)
                 in io_then (emits [Log (lit ''Command: '' @ txt')]) (process_command E txt')))"

section \<open>Listening loop\<close>






section \<open>Concrete worlds\<close>

text \<open>
  Four rows of the Unicode character database as CPython has them: U+0130 (capital I
  with dot above) is a letter whose lower case is the two code points U+0069 U+0307
  and which matches the pattern letter \<open>i\<close> under \<open>re.I\<close>; U+0307 (combining dot
  above) is a nonspacing mark, neither alphanumeric nor whitespace; U+00C9 (capital E
  with acute) is a letter whose lower case is U+00E9, a letter that is its own lower
  case. The other rows beyond ASCII are left trivial here; the texts that this
  database is used with below do not consult them.
\<close>

definition cpython_rows :: unicode_db where
  "cpython_rows =
     \<lparr>db_isspace = (\<lambda>c. False),
      db_isalnum = (\<lambda>c. c = 304 \<or> c = 201 \<or> c = 233),
      db_lower = (\<lambda>s i. if s ! i = 304 then [105, 775]
                        else if s ! i = 201 then [233] else [s ! i]),
      db_ieq = (\<lambda>p c. p = cp CHR ''i'' \<and> c = 304)\<rparr>"

text \<open>
  A world without network access: the search module is not installed and every
  Wikipedia call raises. Every program starts, every folder but one exists.
\<close>

definition quote_spaces :: "ustr \<Rightarrow> ustr" where
  "quote_spaces q = concat (map (\<lambda>c. if c = cp CHR '' '' then lit ''%20'' else [c]) q)"

definition offline_env :: env where
  "offline_env =
     \<lparr>ucd = cpython_rows,
      platform_system = lit ''Linux'',
      expanduser = (\<lambda>p. if p = lit ''~'' then lit ''/home/user'' else p),
      path_exists = (\<lambda>p. p \<noteq> lit ''nowhere''),
      popen = (\<lambda>args. None),
      startfile = (\<lambda>p. None),
      wikipedia_set_lang = None,
      wikipedia_summary = (\<lambda>q. Inl (PyException (lit ''ConnectionError''))),
      google_search = None,
      requests_get = (\<lambda>url. Inl (PyException (lit ''ConnectionError''))),
      requote_uri = quote_spaces,
      image_grab = None,
      asksaveasfilename = (\<lambda>ext. []),
      image_save = (\<lambda>p. None),
      cap_opened = False,
      cap_read_ok = False\<rparr>"

text \<open>
  A world with network access. Wikipedia knows one query. The search yields three
  URLs (and raises for the query \<open>down\<close>): the first page answers 404, the second
  answers 200 with a title and no paragraph, the third answers 200 with a title and a
  paragraph.
\<close>

definition url_a :: ustr where "url_a = lit ''http://a.example''"
definition url_b :: ustr where "url_b = lit ''http://b.example''"
definition url_c :: ustr where "url_c = lit ''http://c.example''"

definition online_env :: env where
  "online_env =
     offline_env
       \<lparr>wikipedia_summary :=
          (\<lambda>q. if q = lit ''who is ada'' then Inr (lit ''Ada Lovelace was a mathematician.'')
                else Inl (PyException (lit ''PageError''))),
        google_search :=
          Some (\<lambda>q. if q = lit ''down'' then Inl (PyException (lit ''HTTPError''))
                     else Inr [url_a, url_b, url_c]),
        requests_get :=
          (\<lambda>url. if url = url_a
                  then Inr \<lparr>status_code = 404, soup = Inr \<lparr>title_string = None, first_p = None\<rparr>\<rparr>
                  else if url = url_b
                  then Inr \<lparr>status_code = 200,
                            soup = Inr \<lparr>title_string = Some (lit '' B ''), first_p = None\<rparr>\<rparr>
                  else if url = url_c
                  then Inr \<lparr>status_code = 200,
                            soup = Inr \<lparr>title_string = Some (lit ''C''),
                                       first_p = Some (lit '' third page '')\<rparr>\<rparr>
                  else Inl (PyException (lit ''ConnectionError'')))\<rparr>"

section \<open>Definitions used to state the claims\<close>

text \<open>The events of a lookup: calls of the lookup libraries, nothing on the user's screen.\<close>

fun is_lookup_io :: "event \<Rightarrow> bool" where
  "is_lookup_io (WikipediaSetLang l) = True"
| "is_lookup_io (WikipediaSummary q n) = True"
| "is_lookup_io (GoogleSearch q n) = True"
| "is_lookup_io (RequestsGet url t) = True"
| "is_lookup_io ParseHtml = True"
| "is_lookup_io ev = False"

text \<open>
  What one candidate URL contributes to the web lookup, and the first contribution of
  a list of candidates: the fetch returns, the status is 200 and the page parses; the
  text is title, paragraph and source, or title and source when the stripped paragraph
  is empty or missing.
\<close>

definition render_page :: "env \<Rightarrow> ustr \<Rightarrow> page \<Rightarrow> ustr" where
  "render_page E url pg =
     (let title = (case title_string pg of
                     None \<Rightarrow> url
                   | Some s \<Rightarrow> if s \<noteq> [] then py_strip (ucd E) s else url);
          snippet = (case first_p pg of None \<Rightarrow> [] | Some p \<Rightarrow> py_strip (ucd E) p)
      in if snippet \<noteq> [] then title @ nl2 @ snippet @ nl2 @ lit ''Source: '' @ url
         else title @ nl2 @ lit ''Source: '' @ url)"

definition candidate_result :: "env \<Rightarrow> ustr \<Rightarrow> ustr option" where
  "candidate_result E url =
     (case requests_get E url of
        Inl e \<Rightarrow> None
      | Inr resp \<Rightarrow>
          if status_code resp \<noteq> 200 then None
          else (case soup resp of Inl e \<Rightarrow> None | Inr pg \<Rightarrow> Some (render_page E url pg)))"

fun first_result :: "env \<Rightarrow> ustr list \<Rightarrow> ustr option" where
  "first_result E [] = None"
| "first_result E (url # urls) =
     (case candidate_result E url of Some text \<Rightarrow> Some text | None \<Rightarrow> first_result E urls)"

text \<open>
  The web lookup as the specification words it: a candidate counts when its status is
  2xx and its extracted paragraph text is not empty, and the first such candidate is
  the result.
\<close>

definition spec_candidate :: "env \<Rightarrow> ustr \<Rightarrow> ustr option" where
  "spec_candidate E url =
     (case requests_get E url of
        Inl e \<Rightarrow> None
      | Inr resp \<Rightarrow>
          if \<not> (200 \<le> status_code resp \<and> status_code resp < 300) then None
          else (case soup resp of
                  Inl e \<Rightarrow> None
                | Inr pg \<Rightarrow>
                    (case first_p pg of
                       None \<Rightarrow> None
                     | Some p \<Rightarrow> if py_strip (ucd E) p \<noteq> [] then Some (render_page E url pg)
                                 else None)))"

fun spec_web_lookup :: "env \<Rightarrow> ustr list \<Rightarrow> ustr option" where
  "spec_web_lookup E [] = None"
| "spec_web_lookup E (url # urls) =
     (case spec_candidate E url of Some text \<Rightarrow> Some text | None \<Rightarrow> spec_web_lookup E urls)"

text \<open>
  The resolver of the specification: the structured lookup, then the web lookup, with
  the outcome tagged by its source. \<open>present_outcome\<close> is what the question block of
  \<open>process_command\<close> does with each outcome.
\<close>

datatype source = Structured | Web

datatype lookup_outcome = Found ustr source | NotFound

definition resolve_spec :: "env \<Rightarrow> ustr \<Rightarrow> lookup_outcome io" where
  "resolve_spec E q =
     io_bind (search_wikipedia E q) (\<lambda>ans.
       if text_of ans \<noteq> [] then io_return (Found (text_of ans) Structured)
       else io_bind (google_first_snippet E q) (\<lambda>web_ans.
              if text_of web_ans \<noteq> [] then io_return (Found (text_of web_ans) Web)
              else io_return NotFound))"

fun present_outcome :: "env \<Rightarrow> ustr \<Rightarrow> lookup_outcome \<Rightarrow> unit io" where
  "present_outcome E q (Found t Structured) = emits [Log (lit ''Wikipedia: '' @ t), Speak t]"
| "present_outcome E q (Found t Web) = emits [Log t, Speak t]"
| "present_outcome E q NotFound =
     emits [WebbrowserOpen (google_search_url E q),
            Speak (lit ''I opened the browser with search results.'')]"

text \<open>
  The lower-case text that \<open>process_command\<close> matches its rules on, the guard of its
  two \<open>open\<close> rules, and the confirmation test of the shutdown and restart rules.
\<close>

definition command_lower :: "unicode_db \<Rightarrow> ustr \<Rightarrow> ustr" where
  "command_lower U text0 = py_strip U (py_lower U (py_strip U text0))"

definition open_rule :: "ustr \<Rightarrow> bool" where
  "open_rule text_lower =
     (startswith text_lower (lit ''open folder'') \<or> startswith text_lower (lit ''open directory'')
      \<or> startswith text_lower (lit ''open '') \<or> startswith text_lower (lit ''launch ''))"

definition confirmed :: "ustr \<Rightarrow> bool" where
  "confirmed text_lower =
     (py_contains text_lower (lit ''confirm'') \<or> py_contains text_lower (lit ''yes''))"

text \<open>
  The rules of \<open>process_command\<close> as a table in source order: guard, intent and
  block. \<open>first_match\<close> picks the first row whose guard holds; \<open>classify\<close> is the
  row that a command text selects, if the text is not blank.
\<close>

datatype intent =
    OpenFolder | OpenAppOrUrl | Shutdown | Restart | Screenshot | CapturePhoto
  | KnowledgeQuery | GenericSearch

definition dispatch_table :: "env \<Rightarrow> ustr \<Rightarrow> ustr \<Rightarrow> (bool \<times> intent \<times> unit io) list" where
  "dispatch_table E text text_lower =
     [(startswith text_lower (lit ''open folder'') \<or> startswith text_lower (lit ''open directory''),
         OpenFolder, pc_open_folder E text),
      (startswith text_lower (lit ''open '') \<or> startswith text_lower (lit ''launch ''),
         OpenAppOrUrl, pc_open E text),
      (py_contains text_lower (lit ''shutdown''),
         Shutdown, pc_shutdown E text_lower),
      (py_contains text_lower (lit ''restart'') \<or> py_contains text_lower (lit ''reboot''),
         Restart, pc_restart E text_lower),
      (py_contains text_lower (lit ''screenshot'') \<or> py_contains text_lower (lit ''screen shot''),
         Screenshot, pc_screenshot E),
      (py_contains text_lower (lit ''capture'')
         \<and> (py_contains text_lower (lit ''photo'') \<or> py_contains text_lower (lit ''picture'')),
         CapturePhoto, capture_photo E),
      (startswith text_lower (lit ''wikipedia '') \<or> startswith text_lower (lit ''wiki ''),
         KnowledgeQuery, pc_wikipedia E text),
      (is_question (ucd E) text_lower,
         KnowledgeQuery, pc_question E text),
      (True, GenericSearch, pc_web_search E text)]"

definition first_match :: "(bool \<times> intent \<times> unit io) list \<Rightarrow> (intent \<times> unit io) option" where
  "first_match table = map_option snd (find fst table)"

definition classify :: "env \<Rightarrow> ustr \<Rightarrow> (intent \<times> unit io) option" where
  "classify E text0 =
     (if py_strip (ucd E) text0 = [] then None
      else first_match (dispatch_table E (py_strip (ucd E) text0) (command_lower (ucd E) text0)))"

text \<open>
  The folder argument: what follows the second space character of the text, and the
  home directory when the text has fewer than two space characters.
\<close>

definition after_space :: "ustr \<Rightarrow> ustr" where
  "after_space s = tl (dropWhile (\<lambda>c. c \<noteq> cp CHR '' '') s)"

definition folder_argument :: "env \<Rightarrow> ustr \<Rightarrow> ustr" where
  "folder_argument E text =
     (if cp CHR '' '' \<in> set text \<and> cp CHR '' '' \<in> set (after_space text)
      then after_space (after_space text)
      else expanduser E (lit ''~''))"



text \<open>
  The characters that a match of a pattern may consume, and the lower-case forms of the
  ASCII characters that a match of the wakeword pattern, or \<open>strip\<close>, may consume.
\<close>

fun rx_chars :: "rx \<Rightarrow> nat \<Rightarrow> bool" where
  "rx_chars Eps c = False"
| "rx_chars (Chr P) c = P c"
| "rx_chars (Star P) c = P c"
| "rx_chars (Plus P) c = P c"
| "rx_chars (Seq a b) c = (rx_chars a c \<or> rx_chars b c)"
| "rx_chars (Opt a) c = rx_chars a c"

definition wake_char :: "nat \<Rightarrow> bool" where
  "wake_char c =
     (c \<in> set (lit ''hey,jarvis:-'') \<or> (9 \<le> c \<and> c \<le> 13) \<or> (28 \<le> c \<and> c \<le> 32))"

section \<open>Properties of the text functions\<close>

lemmas text_defs = py_strip_def py_lower_def re_word_def py_isspace_def is_ascii_def
  ascii_lower_def startswith_def

lemma lower_from_ascii:
  "list_all is_ascii cs \<Longrightarrow> lower_from U s i cs = map ascii_lower cs"
  by (induction cs arbitrary: i) auto

lemma py_lower_ascii: "list_all is_ascii s \<Longrightarrow> py_lower U s = map ascii_lower s"
  by (simp add: py_lower_def lower_from_ascii)

lemma set_py_strip: "set (py_strip U s) \<subseteq> set s"
proof -
  have "set (dropWhile (py_isspace U) (rev (dropWhile (py_isspace U) s)))
          \<subseteq> set (rev (dropWhile (py_isspace U) s))"
    by (meson set_dropWhileD subsetI)
  also have "\<dots> \<subseteq> set s"
    by (auto dest: set_dropWhileD)
  finally show ?thesis by (simp add: py_strip_def)
qed

lemma dropWhile_fix: "(xs \<noteq> [] \<Longrightarrow> \<not> P (hd xs)) \<Longrightarrow> dropWhile P xs = xs"
  by (cases xs) auto

text \<open>What \<open>strip\<close> returns has no whitespace at either end.\<close>

lemma py_strip_ends:
  assumes "py_strip U s \<noteq> []"
  shows "\<not> py_isspace U (hd (py_strip U s))" and "\<not> py_isspace U (last (py_strip U s))"
proof -
  define P where "P = py_isspace U"
  define a where "a = dropWhile P s"
  define b where "b = dropWhile P (rev a)"
  have strip: "py_strip U s = rev b"
    by (simp add: py_strip_def P_def a_def b_def)
  have split: "a = rev b @ rev (takeWhile P (rev a))"
    using takeWhile_dropWhile_id [of P "rev a"] unfolding b_def
    by (metis rev_append rev_rev_ident)
  have ne: "rev b \<noteq> []" using assms strip by simp
  then have "hd (rev b) = hd a" using split by (metis hd_append2)
  moreover have "a \<noteq> []" using ne split by auto
  ultimately have "\<not> P (hd (rev b))" unfolding a_def by (simp add: hd_dropWhile)
  then show "\<not> py_isspace U (hd (py_strip U s))" by (simp add: strip P_def)
  have "b \<noteq> []" using ne by simp
  then have "\<not> P (hd b)" unfolding b_def by (simp add: hd_dropWhile)
  moreover have "last (rev b) = hd b" using \<open>b \<noteq> []\<close> by (simp add: last_rev)
  ultimately show "\<not> py_isspace U (last (py_strip U s))" by (simp add: strip P_def)
qed

lemma py_strip_fix:
  assumes "s \<noteq> [] \<Longrightarrow> \<not> py_isspace U (hd s) \<and> \<not> py_isspace U (last s)"
  shows "py_strip U s = s"
proof (cases "s = []")
  case True
  then show ?thesis by (simp add: py_strip_def)
next
  case False
  with assms have h: "\<not> py_isspace U (hd s)" and l: "\<not> py_isspace U (last s)" by auto
  have 1: "dropWhile (py_isspace U) s = s" using h by (intro dropWhile_fix) simp
  have "hd (rev s) = last s" using False by (simp add: hd_rev)
  then have 2: "dropWhile (py_isspace U) (rev s) = rev s" using l by (intro dropWhile_fix) simp
  show ?thesis by (simp add: py_strip_def 1 2)
qed

lemma py_strip_idem: "py_strip U (py_strip U s) = py_strip U s"
  by (rule py_strip_fix) (simp add: py_strip_ends)

lemma ascii_lower_keeps_class:
  "is_ascii c \<Longrightarrow> re_word U c \<or> py_isspace U c
     \<Longrightarrow> re_word U (ascii_lower c) \<or> py_isspace U (ascii_lower c)"
  by (auto simp: re_word_def py_isspace_def is_ascii_def ascii_lower_def)

lemma ascii_lower_ascii: "is_ascii c \<Longrightarrow> is_ascii (ascii_lower c)"
  by (auto simp: is_ascii_def ascii_lower_def)

lemma ascii_lower_idem: "ascii_lower (ascii_lower c) = ascii_lower c"
  by (auto simp: ascii_lower_def)

text \<open>\<open>strip\<close> cuts whitespace, and nothing else, off both ends.\<close>

lemma py_strip_decomp:
  "\<exists>pre post. s = pre @ py_strip U s @ post
      \<and> list_all (py_isspace U) pre \<and> list_all (py_isspace U) post"
proof -
  define P where "P = py_isspace U"
  define a where "a = dropWhile P s"
  have 1: "s = takeWhile P s @ a" by (simp add: a_def)
  have "rev a = takeWhile P (rev a) @ dropWhile P (rev a)" by simp
  then have "a = rev (dropWhile P (rev a)) @ rev (takeWhile P (rev a))"
    by (metis rev_append rev_rev_ident)
  then have 2: "a = py_strip U s @ rev (takeWhile P (rev a))"
    by (simp add: py_strip_def P_def a_def)
  have "s = takeWhile P s @ py_strip U s @ rev (takeWhile P (rev a))"
    using 1 2 by simp
  moreover have "list_all P (takeWhile P s)"
    by (simp add: list_all_iff) (meson set_takeWhileD)
  moreover have "list_all P (rev (takeWhile P (rev a)))"
    by (simp add: list_all_iff) (meson set_takeWhileD)
  ultimately show ?thesis unfolding P_def by blast
qed

lemma lower_from_fixed:
  "cs = drop i s
     \<Longrightarrow> \<forall>c \<in> set cs. (is_ascii c \<longrightarrow> ascii_lower c = c)
            \<and> (\<not> is_ascii c
                 \<longrightarrow> (\<forall>s' j. j < length s' \<and> s' ! j = c \<longrightarrow> db_lower U s' j = [c]))
     \<Longrightarrow> lower_from U s i cs = cs"
proof (induction cs arbitrary: i)
  case Nil
  show ?case by simp
next
  case (Cons c cs)
  have i: "i < length s" using Cons.prems(1) by (metis drop_all list.distinct(1) not_le)
  then have c: "s ! i = c" and rest: "cs = drop (Suc i) s"
    using Cons.prems(1) by (metis Cons_nth_drop_Suc list.inject)+
  have hd: "(if is_ascii c then [ascii_lower c] else db_lower U s i) = [c]"
    using Cons.prems(2) i c by auto
  have "lower_from U s (Suc i) cs = cs"
    using rest Cons.prems(2) by (intro Cons.IH) simp_all
  then show ?case using hd by simp
qed

lemma lower_from_chars:
  assumes "\<forall>j < length cs.
             (is_ascii (cs ! j) \<longrightarrow> Q (ascii_lower (cs ! j)))
             \<and> (\<not> is_ascii (cs ! j) \<longrightarrow> (\<forall>d \<in> set (db_lower U s (i + j)). Q d))"
  shows "\<forall>d \<in> set (lower_from U s i cs). Q d"
  using assms
proof (induction cs arbitrary: i)
  case Nil
  show ?case by simp
next
  case (Cons c cs)
  have hd: "(is_ascii c \<longrightarrow> Q (ascii_lower c))
            \<and> (\<not> is_ascii c \<longrightarrow> (\<forall>d \<in> set (db_lower U s i). Q d))"
    using Cons.prems [rule_format, of 0] by simp
  have "\<forall>j < length cs.
             (is_ascii (cs ! j) \<longrightarrow> Q (ascii_lower (cs ! j)))
             \<and> (\<not> is_ascii (cs ! j) \<longrightarrow> (\<forall>d \<in> set (db_lower U s (Suc i + j)). Q d))"
  proof (intro allI impI)
    fix j assume "j < length cs"
    then show "(is_ascii (cs ! j) \<longrightarrow> Q (ascii_lower (cs ! j)))
             \<and> (\<not> is_ascii (cs ! j) \<longrightarrow> (\<forall>d \<in> set (db_lower U s (Suc i + j)). Q d))"
      using Cons.prems [rule_format, of "Suc j"] by simp
  qed
  then have "\<forall>d \<in> set (lower_from U s (Suc i) cs). Q d" by (rule Cons.IH)
  then show ?case using hd by auto
qed

lemma startswith_set: "startswith s p \<Longrightarrow> set p \<subseteq> set s"
  unfolding startswith_def by (metis set_take_subset)

lemma py_contains_set: "py_contains s p \<Longrightarrow> set p \<subseteq> set s"
proof (induction s)
  case Nil
  then show ?case by simp
next
  case (Cons c cs)
  from Cons.prems have "startswith (c # cs) p \<or> py_contains cs p" by simp
  then show ?case
  proof
    assume "startswith (c # cs) p"
    then show ?thesis by (rule startswith_set)
  next
    assume "py_contains cs p"
    then have "set p \<subseteq> set cs" by (rule Cons.IH)
    then show ?thesis by auto
  qed
qed

lemma split_ws_acc_set:
  "tok \<in> set (split_ws_acc U w s) \<Longrightarrow> set tok \<subseteq> set w \<union> set s"
  by (induction U w s rule: split_ws_acc.induct) (auto split: if_splits)

lemma is_question_char:
  "is_question U s \<Longrightarrow> cp CHR ''w'' \<in> set s"
proof -
  assume "is_question U s"
  then obtain w where w: "w \<in> set QUESTION_WORDS" and "w \<in> set (py_split_ws U s)"
    by (auto simp: is_question_def list_ex_iff)
  then have "set w \<subseteq> set s" using split_ws_acc_set [of w U "[]" s] by (simp add: py_split_ws_def)
  moreover have "cp CHR ''w'' \<in> set w" using w by (auto simp: QUESTION_WORDS_def)
  ultimately show ?thesis by blast
qed

lemma wake_chars_no_rule:
  assumes "\<forall>c \<in> set s. \<not> is_ascii c \<or> wake_char c"
  shows "\<not> startswith s (lit ''open folder'')" "\<not> startswith s (lit ''open directory'')"
    "\<not> startswith s (lit ''open '')" "\<not> startswith s (lit ''launch '')"
    "\<not> py_contains s (lit ''shutdown'')" "\<not> py_contains s (lit ''restart'')"
    "\<not> py_contains s (lit ''reboot'')" "\<not> py_contains s (lit ''screenshot'')"
    "\<not> py_contains s (lit ''screen shot'')" "\<not> py_contains s (lit ''capture'')"
    "\<not> startswith s (lit ''wikipedia '')" "\<not> startswith s (lit ''wiki '')"
    "\<not> is_question U s"
proof -
  define Q where "Q = (\<lambda>c. \<not> is_ascii c \<or> wake_char c)"
  have no: "\<not> Q (cp CHR ''o'')" "\<not> Q (cp CHR ''l'')" "\<not> Q (cp CHR ''t'')"
    "\<not> Q (cp CHR ''b'')" "\<not> Q (cp CHR ''c'')" "\<not> Q (cp CHR ''w'')"
    by (simp_all add: Q_def wake_char_def is_ascii_def)
  have sw: "\<And>p c. startswith s p \<Longrightarrow> c \<in> set p \<Longrightarrow> Q c"
    using assms startswith_set unfolding Q_def by blast
  have pc: "\<And>p c. py_contains s p \<Longrightarrow> c \<in> set p \<Longrightarrow> Q c"
    using assms py_contains_set unfolding Q_def by blast
  show "\<not> startswith s (lit ''open folder'')" using sw [of _ "cp CHR ''o''"] no by force
  show "\<not> startswith s (lit ''open directory'')" using sw [of _ "cp CHR ''o''"] no by force
  show "\<not> startswith s (lit ''open '')" using sw [of _ "cp CHR ''o''"] no by force
  show "\<not> startswith s (lit ''launch '')" using sw [of _ "cp CHR ''l''"] no by force
  show "\<not> py_contains s (lit ''shutdown'')" using pc [of _ "cp CHR ''t''"] no by force
  show "\<not> py_contains s (lit ''restart'')" using pc [of _ "cp CHR ''t''"] no by force
  show "\<not> py_contains s (lit ''reboot'')" using pc [of _ "cp CHR ''b''"] no by force
  show "\<not> py_contains s (lit ''screenshot'')" using pc [of _ "cp CHR ''c''"] no by force
  show "\<not> py_contains s (lit ''screen shot'')" using pc [of _ "cp CHR ''c''"] no by force
  show "\<not> py_contains s (lit ''capture'')" using pc [of _ "cp CHR ''c''"] no by force
  show "\<not> startswith s (lit ''wikipedia '')" using sw [of _ "cp CHR ''w''"] no by force
  show "\<not> startswith s (lit ''wiki '')" using sw [of _ "cp CHR ''w''"] no by force
  show "\<not> is_question U s"
    using is_question_char [of U s] assms no(6) unfolding Q_def by blast
qed

lemma has_wakeword_nonempty: "has_wakeword U t \<Longrightarrow> t \<noteq> []"
  by (auto simp: has_wakeword_def)

text \<open>
  On ASCII text the normal form consists of lower-case word and space characters, and
  normalising it again changes nothing.
\<close>

lemma normalize_text_ascii:
  assumes "list_all is_ascii x"
  shows "\<forall>c \<in> set (normalize_text U x).
           is_ascii c \<and> (re_word U c \<or> py_isspace U c) \<and> ascii_lower c = c"
    and "normalize_text U (normalize_text U x) = normalize_text U x"
proof -
  define K where "K = (\<lambda>c. re_word U c \<or> py_isspace U c)"
  define l where "l = map ascii_lower (filter K x)"
  define n where "n = py_strip U l"
  have fa: "list_all is_ascii (filter K x)"
    using assms by (auto simp: list_all_iff)
  have norm: "normalize_text U x = n"
    unfolding normalize_text_def n_def l_def K_def using fa
    by (simp add: py_lower_ascii K_def)
  have sub: "set n \<subseteq> set l" unfolding n_def by (rule set_py_strip)
  have l_props: "\<forall>c \<in> set l. is_ascii c \<and> K c \<and> ascii_lower c = c"
    using assms unfolding l_def K_def
    by (auto simp: list_all_iff ascii_lower_ascii ascii_lower_idem dest: ascii_lower_keeps_class)
  then have n_props: "\<forall>c \<in> set n. is_ascii c \<and> K c \<and> ascii_lower c = c"
    using sub by blast
  then show "\<forall>c \<in> set (normalize_text U x).
               is_ascii c \<and> (re_word U c \<or> py_isspace U c) \<and> ascii_lower c = c"
    by (simp add: norm K_def)
  have "filter K n = n" using n_props by (simp add: filter_id_conv)
  moreover have "py_lower U n = n"
    using n_props by (simp add: py_lower_ascii list_all_iff map_idI)
  moreover have "py_strip U n = n" unfolding n_def by (rule py_strip_idem)
  ultimately have "normalize_text U n = n"
    unfolding normalize_text_def K_def by simp
  then show "normalize_text U (normalize_text U x) = normalize_text U x"
    by (simp add: norm)
qed

text \<open>
  Beyond ASCII, normalising again changes nothing when every character that the first
  pass lower-cases yields word or space characters that are themselves in lower case.
\<close>

lemma normalize_text_stable:
  assumes "\<forall>i < length (filter (\<lambda>c. re_word U c \<or> py_isspace U c) x).
             \<not> is_ascii (filter (\<lambda>c. re_word U c \<or> py_isspace U c) x ! i)
             \<longrightarrow> (\<forall>d \<in> set (db_lower U (filter (\<lambda>c. re_word U c \<or> py_isspace U c) x) i).
                    (re_word U d \<or> py_isspace U d)
                    \<and> (is_ascii d \<longrightarrow> ascii_lower d = d)
                    \<and> (\<not> is_ascii d
                         \<longrightarrow> (\<forall>s j. j < length s \<and> s ! j = d \<longrightarrow> db_lower U s j = [d])))"
  shows "normalize_text U (normalize_text U x) = normalize_text U x"
proof -
  define K where "K = (\<lambda>c. re_word U c \<or> py_isspace U c)"
  define Q where "Q = (\<lambda>d. K d \<and> (is_ascii d \<longrightarrow> ascii_lower d = d)
                    \<and> (\<not> is_ascii d
                         \<longrightarrow> (\<forall>s j. j < length s \<and> s ! j = d \<longrightarrow> db_lower U s j = [d])))"
  define f where "f = filter K x"
  define n where "n = py_strip U (py_lower U f)"
  have norm: "normalize_text U x = n"
    by (simp add: normalize_text_def n_def f_def K_def)
  have rows: "\<forall>i < length f. \<not> is_ascii (f ! i) \<longrightarrow> (\<forall>d \<in> set (db_lower U f i). Q d)"
    using assms unfolding f_def K_def Q_def by this
  have "\<forall>j < length f.
          (is_ascii (f ! j) \<longrightarrow> Q (ascii_lower (f ! j)))
          \<and> (\<not> is_ascii (f ! j) \<longrightarrow> (\<forall>d \<in> set (db_lower U f (0 + j)). Q d))"
  proof (intro allI impI conjI)
    fix j assume j: "j < length f" and a: "is_ascii (f ! j)"
    have "f ! j \<in> set f" using j by simp
    then have "K (f ! j)" by (simp add: f_def)
    then have "K (ascii_lower (f ! j))"
      using a ascii_lower_keeps_class [of "f ! j" U] unfolding K_def by blast
    moreover have "is_ascii (ascii_lower (f ! j))" using a by (rule ascii_lower_ascii)
    moreover have "ascii_lower (ascii_lower (f ! j)) = ascii_lower (f ! j)"
      by (rule ascii_lower_idem)
    ultimately show "Q (ascii_lower (f ! j))" unfolding Q_def by blast
  next
    fix j assume j: "j < length f" and a: "\<not> is_ascii (f ! j)"
    have "\<forall>d \<in> set (db_lower U f j). Q d" using rows j a by blast
    then show "\<forall>d \<in> set (db_lower U f (0 + j)). Q d" by simp
  qed
  then have "\<forall>d \<in> set (lower_from U f 0 f). Q d" by (rule lower_from_chars)
  then have q: "\<forall>d \<in> set n. Q d"
    unfolding n_def py_lower_def using set_py_strip by blast
  have "\<forall>d \<in> set n. K d" using q unfolding Q_def by blast
  then have "filter K n = n" by (simp add: filter_id_conv)
  moreover have "py_lower U n = n"
    unfolding py_lower_def
  proof (rule lower_from_fixed)
    show "n = drop 0 n" by simp
    show "\<forall>c \<in> set n. (is_ascii c \<longrightarrow> ascii_lower c = c)
            \<and> (\<not> is_ascii c
                 \<longrightarrow> (\<forall>s' j. j < length s' \<and> s' ! j = c \<longrightarrow> db_lower U s' j = [c]))"
      using q unfolding Q_def by blast
  qed
  moreover have "py_strip U n = n" unfolding n_def by (rule py_strip_idem)
  ultimately have "normalize_text U n = n"
    unfolding normalize_text_def K_def by simp
  then show ?thesis by (simp add: norm)
qed

section \<open>Properties of the effect combinators\<close>

lemmas io_defs = io_return_def io_raise_def io_bind_def io_then_def io_try_def emits_def
  call_def may_raise_def

lemma snd_io_bind:
  "snd (io_bind m f) = (case snd m of Inl e \<Rightarrow> Inl e | Inr x \<Rightarrow> snd (f x))"
  by (cases m) (auto simp: io_bind_def split: sum.splits prod.splits)

lemma fst_io_bind:
  "fst (io_bind m f) = fst m @ (case snd m of Inl e \<Rightarrow> [] | Inr x \<Rightarrow> fst (f x))"
  by (cases m) (auto simp: io_bind_def split: sum.splits prod.splits)

lemma snd_io_try:
  "snd (io_try m h) = (case snd m of Inl e \<Rightarrow> snd (h e) | Inr x \<Rightarrow> Inr x)"
  by (cases m) (auto simp: io_try_def split: sum.splits prod.splits)

lemma fst_io_try:
  "fst (io_try m h) = fst m @ (case snd m of Inl e \<Rightarrow> fst (h e) | Inr x \<Rightarrow> [])"
  by (cases m) (auto simp: io_try_def split: sum.splits prod.splits)

lemma snd_io_then:
  "snd (io_then m k) = (case snd m of Inl e \<Rightarrow> Inl e | Inr x \<Rightarrow> snd k)"
  by (simp add: io_then_def snd_io_bind)

lemma fst_io_then:
  "fst (io_then m k) = fst m @ (case snd m of Inl e \<Rightarrow> [] | Inr x \<Rightarrow> fst k)"
  by (simp add: io_then_def fst_io_bind)

lemmas io_proj = snd_io_bind fst_io_bind snd_io_try fst_io_try snd_io_then fst_io_then

section \<open>Properties of the search helpers\<close>

lemma search_wikipedia_result:
  "snd (search_wikipedia E q)
     = Inr (case wikipedia_set_lang E of
              Some e \<Rightarrow> None
            | None \<Rightarrow> (case wikipedia_summary E q of Inl e \<Rightarrow> None | Inr s \<Rightarrow> Some s))"
  by (simp add: search_wikipedia_def io_defs split: option.splits sum.splits)

lemma search_wikipedia_events: "list_all is_lookup_io (fst (search_wikipedia E q))"
  by (simp add: search_wikipedia_def io_defs split: option.splits sum.splits)

lemma fetch_snippet_result: "snd (fetch_snippet E url) = Inr (candidate_result E url)"
  by (simp add: fetch_snippet_def candidate_result_def render_page_def io_defs Let_def
           split: option.splits sum.splits)

lemma fetch_snippet_events: "list_all is_lookup_io (fst (fetch_snippet E url))"
  by (simp add: fetch_snippet_def io_defs Let_def split: option.splits sum.splits)

lemma fetch_loop_result: "snd (fetch_loop E urls) = Inr (first_result E urls)"
proof (induction urls)
  case Nil
  show ?case by (simp add: io_return_def)
next
  case (Cons url urls)
  obtain es where f: "fetch_snippet E url = (es, Inr (candidate_result E url))"
    using fetch_snippet_result [of E url] by (cases "fetch_snippet E url") auto
  obtain es' where l: "fetch_loop E urls = (es', Inr (first_result E urls))"
    using Cons.IH by (cases "fetch_loop E urls") auto
  show ?case by (simp add: f l split: option.splits)
qed

lemma fetch_loop_events: "list_all is_lookup_io (fst (fetch_loop E urls))"
proof (induction urls)
  case Nil
  show ?case by (simp add: io_return_def)
next
  case (Cons url urls)
  obtain es where f: "fetch_snippet E url = (es, Inr (candidate_result E url))"
    using fetch_snippet_result [of E url] by (cases "fetch_snippet E url") auto
  have es: "list_all is_lookup_io es"
    using fetch_snippet_events [of E url] by (simp add: f)
  obtain es' r where l: "fetch_loop E urls = (es', r)"
    by (cases "fetch_loop E urls") auto
  have es': "list_all is_lookup_io es'"
    using Cons.IH by (simp add: l)
  show ?case using es es' by (simp add: f l split: option.splits)
qed

lemma google_first_snippet_result:
  "snd (google_first_snippet E q)
     = Inr (case google_search E of
              None \<Rightarrow> None
            | Some search \<Rightarrow> (case search q of Inl e \<Rightarrow> None | Inr urls \<Rightarrow> first_result E urls))"
  by (simp add: google_first_snippet_def io_proj fetch_loop_result io_return_def emits_def
                call_def
           split: option.splits sum.splits)

lemma google_first_snippet_events_found:
  "google_search E = Some search \<Longrightarrow> search q = Inr urls
     \<Longrightarrow> fst (google_first_snippet E q) = GoogleSearch q 5 # fst (fetch_loop E urls)"
  by (simp add: google_first_snippet_def io_proj io_return_def call_def)

lemma google_first_snippet_unavailable:
  "google_search E = None
     \<Longrightarrow> google_first_snippet E q = ([WebbrowserOpen (google_search_url E q)], Inr None)"
  by (simp add: google_first_snippet_def io_defs)

lemma google_first_snippet_raises:
  "google_search E = Some search \<Longrightarrow> search q = Inl e
     \<Longrightarrow> google_first_snippet E q
           = ([GoogleSearch q 5, WebbrowserOpen (google_search_url E q)], Inr None)"
  by (simp add: google_first_snippet_def io_defs)

lemma first_result_None: "(\<forall>u \<in> set urls. candidate_result E u = None) \<Longrightarrow> first_result E urls = None"
  by (induction urls) auto

lemma pc_question_resolve:
  "pc_question E text
     = io_then (emits [Log (lit ''Question detected: '' @ text), Speak (lit ''Let me look that up.'')])
         (io_bind (resolve_spec E text) (present_outcome E text))"
proof -
  obtain es a where w: "search_wikipedia E text = (es, Inr a)"
    using search_wikipedia_result [of E "text"] by (cases "search_wikipedia E text") auto
  obtain es' b where g: "google_first_snippet E text = (es', Inr b)"
    using google_first_snippet_result [of E "text"] by (cases "google_first_snippet E text") auto
  show ?thesis
    by (simp add: pc_question_def resolve_spec_def w g io_defs)
qed

section \<open>Wakeword helpers: claims\<close>

text \<open>
  Claim C6. \<open>has_wakeword\<close> is true exactly when the normalised text starts with
  \<open>hey jarvis\<close> or with \<open>jarvis\<close>. The test is on the prefix alone and knows
  nothing of word boundaries (\<open>jarvisx\<close> passes). On the examples of the
  specification: \<open>Hey Jarvis, open chrome\<close> has the wakeword and is stripped to
  \<open>open chrome\<close>, the bare \<open>jarvis\<close> is stripped to the empty text, and
  \<open>What's the weather\<close> has no wakeword. All of this holds whatever the Unicode
  database says beyond ASCII.
\<close>

theorem has_wakeword_prefix_test:
  "has_wakeword U t
     = (startswith (normalize_text U t) (lit ''hey jarvis'')
        \<or> startswith (normalize_text U t) (lit ''jarvis''))
   \<and> has_wakeword U (lit ''Hey Jarvis, open chrome'')
   \<and> strip_wakeword U (lit ''Hey Jarvis, open chrome'') = lit ''open chrome''
   \<and> strip_wakeword U (lit ''jarvis'') = []
   \<and> \<not> has_wakeword U (lit ''What's the weather'')
   \<and> has_wakeword U (lit ''jarvisx'')"
proof -
  have iff: "has_wakeword U t
     = (startswith (normalize_text U t) (lit ''hey jarvis'')
        \<or> startswith (normalize_text U t) (lit ''jarvis''))"
  proof (cases "t = []")
    case True
    then show ?thesis
      by (simp add: has_wakeword_def normalize_text_def text_defs)
  next
    case False
    then show ?thesis
      by (simp add: has_wakeword_def WAKEWORD_def Let_def)
  qed
  have ex1: "has_wakeword U (lit ''Hey Jarvis, open chrome'')"
    by (simp add: has_wakeword_def normalize_text_def WAKEWORD_def text_defs)
  have ex2: "strip_wakeword U (lit ''Hey Jarvis, open chrome'') = lit ''open chrome''"
    by (simp add: strip_wakeword_def wake_rx_def re_sub_anchored_def re_ieq_def text_defs)
  have ex3: "strip_wakeword U (lit ''jarvis'') = []"
    by (simp add: strip_wakeword_def wake_rx_def re_sub_anchored_def re_ieq_def text_defs)
  have ex4: "\<not> has_wakeword U (lit ''What's the weather'')"
    by (simp add: has_wakeword_def normalize_text_def WAKEWORD_def text_defs)
  have ex5: "has_wakeword U (lit ''jarvisx'')"
    by (simp add: has_wakeword_def normalize_text_def WAKEWORD_def text_defs)
  from iff ex1 ex2 ex3 ex4 ex5 show ?thesis by blast
qed

theorem has_wakeword_prefix_test_witness:
  "has_wakeword cpython_rows (lit ''jarvis, lights'')
   \<and> startswith (normalize_text cpython_rows (lit ''jarvis, lights'')) (lit ''jarvis'')
   \<and> strip_wakeword cpython_rows (lit ''jarvis'') = []"
  using has_wakeword_prefix_test [of cpython_rows "lit ''jarvis, lights''"]
  by (simp add: normalize_text_def cpython_rows_def text_defs)

text \<open>
  Claim C7, as the specification states it: \<open>normalize(normalize(x)) = normalize(x)\<close>
  for all text. It fails at the one-character text U+0130: the substitution keeps the
  letter, \<open>lower\<close> expands it to \<open>i\<close> followed by the combining dot U+0307, and a
  second normalisation removes the dot, which is not a word character.
\<close>

theorem normalize_text_dotted_I_counterexample:
  "normalize_text cpython_rows (normalize_text cpython_rows [304])
     \<noteq> normalize_text cpython_rows [304]"
  by (simp add: normalize_text_def cpython_rows_def text_defs)

text \<open>
  Claim C7, amended. \<open>normalize_text\<close> is a total function whose result is exactly
  the text without the characters that are neither word characters nor whitespace,
  lower-cased, with the whitespace at both ends cut off and nothing else; the empty
  text is mapped to the empty text, and \<open>Call 911, now_!\<close> between spaces to
  \<open>call 911 now_\<close>. It is idempotent on every text in which each character beyond
  ASCII that survives the filter lower-cases to word or space characters that are in
  lower case already (an ASCII character that is its own lower case, or a character
  beyond ASCII that lower-casing leaves alone wherever it stands). Every ASCII text is
  such a text, and on it lower-casing is the ASCII one. The text U+0130 is not.
\<close>

theorem normalize_text_idempotent_stable_rows:
  "normalize_text U [] = []
   \<and> normalize_text U (lit ''  Call 911, now_!  '') = lit ''call 911 now_''
   \<and> (\<exists>pre post.
         py_lower U (filter (\<lambda>c. re_word U c \<or> py_isspace U c) x)
           = pre @ normalize_text U x @ post
         \<and> list_all (py_isspace U) pre \<and> list_all (py_isspace U) post)
   \<and> (normalize_text U x \<noteq> []
        \<longrightarrow> \<not> py_isspace U (hd (normalize_text U x))
            \<and> \<not> py_isspace U (last (normalize_text U x)))
   \<and> (list_all is_ascii x
        \<longrightarrow> py_lower U (filter (\<lambda>c. re_word U c \<or> py_isspace U c) x)
              = map ascii_lower (filter (\<lambda>c. re_word U c \<or> py_isspace U c) x)
            \<and> (\<forall>c \<in> set (normalize_text U x).
                 (re_word U c \<or> py_isspace U c) \<and> ascii_lower c = c)
            \<and> normalize_text U (normalize_text U x) = normalize_text U x)
   \<and> ((\<forall>i < length (filter (\<lambda>c. re_word U c \<or> py_isspace U c) x).
             \<not> is_ascii (filter (\<lambda>c. re_word U c \<or> py_isspace U c) x ! i)
             \<longrightarrow> (\<forall>d \<in> set (db_lower U (filter (\<lambda>c. re_word U c \<or> py_isspace U c) x) i).
                    (re_word U d \<or> py_isspace U d)
                    \<and> (is_ascii d \<longrightarrow> ascii_lower d = d)
                    \<and> (\<not> is_ascii d
                         \<longrightarrow> (\<forall>s j. j < length s \<and> s ! j = d \<longrightarrow> db_lower U s j = [d]))))
        \<longrightarrow> normalize_text U (normalize_text U x) = normalize_text U x)"
proof -
  have empty: "normalize_text U [] = []"
    by (simp add: normalize_text_def text_defs)
  have example: "normalize_text U (lit ''  Call 911, now_!  '') = lit ''call 911 now_''"
    by (simp add: normalize_text_def text_defs)
  have decomp: "\<exists>pre post.
         py_lower U (filter (\<lambda>c. re_word U c \<or> py_isspace U c) x)
           = pre @ normalize_text U x @ post
         \<and> list_all (py_isspace U) pre \<and> list_all (py_isspace U) post"
    unfolding normalize_text_def by (rule py_strip_decomp)
  have trimmed: "normalize_text U x \<noteq> []
        \<longrightarrow> \<not> py_isspace U (hd (normalize_text U x))
            \<and> \<not> py_isspace U (last (normalize_text U x))"
    unfolding normalize_text_def by (simp add: py_strip_ends)
  have lower: "list_all is_ascii x
        \<longrightarrow> py_lower U (filter (\<lambda>c. re_word U c \<or> py_isspace U c) x)
              = map ascii_lower (filter (\<lambda>c. re_word U c \<or> py_isspace U c) x)"
    by (auto simp: list_all_iff intro!: py_lower_ascii)
  show ?thesis
    using empty example decomp trimmed lower normalize_text_ascii [of x U]
      normalize_text_stable [of U x]
    by blast
qed

theorem normalize_text_idempotent_stable_rows_witness:
  "normalize_text cpython_rows (lit ''Caf'' @ [201] @ lit ''!  '') = lit ''caf'' @ [233]
   \<and> normalize_text cpython_rows (normalize_text cpython_rows (lit ''Caf'' @ [201] @ lit ''!  ''))
       = lit ''caf'' @ [233]
   \<and> list_all is_ascii (lit ''  Hey, Jarvis!  '')
   \<and> normalize_text cpython_rows (normalize_text cpython_rows (lit ''  Hey, Jarvis!  ''))
       = lit ''hey jarvis''"
proof -
  note A = normalize_text_idempotent_stable_rows [of cpython_rows "lit ''Caf'' @ [201] @ lit ''!  ''"]
  note B = normalize_text_idempotent_stable_rows [of cpython_rows "lit ''  Hey, Jarvis!  ''"]
  have f: "filter (\<lambda>c. re_word cpython_rows c \<or> py_isspace cpython_rows c) (lit ''Caf'' @ [201] @ lit ''!  '')
             = [67, 97, 102, 201, 32, 32]"
    by (simp add: cpython_rows_def text_defs)
  have rows: "\<forall>i < length [67, 97, 102, 201, 32, 32 :: nat].
             \<not> is_ascii ([67, 97, 102, 201, 32, 32] ! i)
             \<longrightarrow> (\<forall>d \<in> set (db_lower cpython_rows [67, 97, 102, 201, 32, 32] i).
                    (re_word cpython_rows d \<or> py_isspace cpython_rows d)
                    \<and> (is_ascii d \<longrightarrow> ascii_lower d = d)
                    \<and> (\<not> is_ascii d
                         \<longrightarrow> (\<forall>s j. j < length s \<and> s ! j = d \<longrightarrow> db_lower cpython_rows s j = [d])))"
    by (simp add: All_less_Suc cpython_rows_def text_defs)
  have n: "normalize_text cpython_rows (lit ''Caf'' @ [201] @ lit ''!  '') = lit ''caf'' @ [233]"
    by (simp add: normalize_text_def cpython_rows_def text_defs)
  have i1: "normalize_text cpython_rows (normalize_text cpython_rows (lit ''Caf'' @ [201] @ lit ''!  ''))
              = normalize_text cpython_rows (lit ''Caf'' @ [201] @ lit ''!  '')"
    using conjunct2 [OF conjunct2 [OF conjunct2 [OF conjunct2 [OF conjunct2 [OF A]]]]] rows
    unfolding f by blast
  have a: "list_all is_ascii (lit ''  Hey, Jarvis!  '')"
    by (simp add: is_ascii_def)
  have m: "normalize_text cpython_rows (lit ''  Hey, Jarvis!  '') = lit ''hey jarvis''"
    by (simp add: normalize_text_def cpython_rows_def text_defs)
  have i2: "normalize_text cpython_rows (normalize_text cpython_rows (lit ''  Hey, Jarvis!  ''))
              = normalize_text cpython_rows (lit ''  Hey, Jarvis!  '')"
    using conjunct1 [OF conjunct2 [OF conjunct2 [OF conjunct2 [OF conjunct2 [OF B]]]]] a
    by blast
  show ?thesis using n i1 a m i2 by simp
qed

section \<open>Knowledge lookup: claims\<close>

lemmas env_defs = online_env_def offline_env_def url_a_def url_b_def url_c_def cpython_rows_def
  quote_spaces_def

lemma first_result_first:
  "(\<forall>u \<in> set pre. candidate_result E u = None) \<Longrightarrow> candidate_result E url = Some t
     \<Longrightarrow> first_result E (pre @ url # post) = Some t"
  by (induction pre) auto

lemma search_wikipedia_event_set:
  "set (fst (search_wikipedia E q))
     \<subseteq> {WikipediaSetLang (lit ''en''), WikipediaSummary q WIKI_SENTENCES}"
  by (simp add: search_wikipedia_def io_defs split: option.splits sum.splits)

lemma pair_eqI: "fst p = a \<Longrightarrow> snd p = b \<Longrightarrow> p = (a, b)"
  by auto

lemma resolve_spec_total: "\<exists>out. snd (resolve_spec E q) = Inr out"
  by (simp add: resolve_spec_def io_proj search_wikipedia_result google_first_snippet_result
        io_return_def)

text \<open>
  Claim C2, as the specification states it: the lookup stages perform no browser side
  effect. It fails where the search module is not installed: the web lookup itself
  opens a browser search before it returns \<open>None\<close>.
\<close>

theorem web_lookup_opens_browser_counterexample:
  "fst (google_first_snippet offline_env (lit ''who is ada''))
     = [WebbrowserOpen (lit ''https://www.google.com/search?q=who%20is%20ada'')]
   \<and> \<not> list_all is_lookup_io (fst (google_first_snippet offline_env (lit ''who is ada'')))"
  by (simp add: google_first_snippet_def google_search_url_def io_defs env_defs)

text \<open>
  Claim C2, amended. The structured lookup performs lookup calls only. So does the web
  lookup when URL discovery succeeds. When the search module is unavailable, or URL
  discovery raises, the web lookup itself opens a browser search and returns \<open>None\<close>.
  When the resolver ends in \<open>NotFound\<close>, the question block of the dispatcher opens
  the browser search after the events of the resolver.
\<close>

theorem lookup_stage_side_effects:
  "list_all is_lookup_io (fst (search_wikipedia E q))
   \<and> (google_search E = Some search \<and> search q = Inr urls
        \<longrightarrow> list_all is_lookup_io (fst (google_first_snippet E q)))
   \<and> (google_search E = None
        \<longrightarrow> google_first_snippet E q = ([WebbrowserOpen (google_search_url E q)], Inr None))
   \<and> (google_search E = Some search \<and> search q = Inl e
        \<longrightarrow> google_first_snippet E q
            = ([GoogleSearch q 5, WebbrowserOpen (google_search_url E q)], Inr None))
   \<and> (snd (resolve_spec E q) = Inr NotFound
        \<longrightarrow> fst (pc_question E q)
            = [Log (lit ''Question detected: '' @ q), Speak (lit ''Let me look that up.'')]
              @ fst (resolve_spec E q)
              @ [WebbrowserOpen (google_search_url E q),
                 Speak (lit ''I opened the browser with search results.'')])"
proof -
  have 1: "list_all is_lookup_io (fst (search_wikipedia E q))"
    by (rule search_wikipedia_events)
  have 2: "google_search E = Some search \<and> search q = Inr urls
        \<longrightarrow> list_all is_lookup_io (fst (google_first_snippet E q))"
    by (simp add: google_first_snippet_events_found fetch_loop_events)
  have 3: "google_search E = None
        \<longrightarrow> google_first_snippet E q = ([WebbrowserOpen (google_search_url E q)], Inr None)"
    by (simp add: google_first_snippet_unavailable)
  have 4: "google_search E = Some search \<and> search q = Inl e
        \<longrightarrow> google_first_snippet E q
            = ([GoogleSearch q 5, WebbrowserOpen (google_search_url E q)], Inr None)"
    by (simp add: google_first_snippet_raises)
  have 5: "snd (resolve_spec E q) = Inr NotFound
        \<longrightarrow> fst (pc_question E q)
            = [Log (lit ''Question detected: '' @ q), Speak (lit ''Let me look that up.'')]
              @ fst (resolve_spec E q)
              @ [WebbrowserOpen (google_search_url E q),
                 Speak (lit ''I opened the browser with search results.'')]"
    by (simp add: pc_question_resolve io_proj emits_def)
  from 1 2 3 4 5 show ?thesis by blast
qed

theorem lookup_stage_side_effects_witness:
  "google_search offline_env = None
   \<and> google_first_snippet offline_env (lit ''who is ada'')
       = ([WebbrowserOpen (lit ''https://www.google.com/search?q=who%20is%20ada'')], Inr None)
   \<and> list_all is_lookup_io (fst (google_first_snippet online_env (lit ''ada'')))"
proof -
  have off: "google_search offline_env = None"
    by (simp add: env_defs)
  have url: "google_search_url offline_env (lit ''who is ada'')
               = lit ''https://www.google.com/search?q=who%20is%20ada''"
    by (simp add: google_search_url_def env_defs)
  obtain search where s: "google_search online_env = Some search"
    and u: "search (lit ''ada'') = Inr [url_a, url_b, url_c]"
    by (simp add: env_defs)
  show ?thesis
    using lookup_stage_side_effects [of offline_env "lit ''who is ada''"] off url
      lookup_stage_side_effects [of online_env "lit ''ada''" search "[url_a, url_b, url_c]"] s u
    by simp
qed

text \<open>
  Claim C3, as the specification states it: the result is the first candidate with a
  2xx status and a non-empty extracted paragraph. It fails on the candidates
  \<open>url_a\<close>, \<open>url_b\<close>, \<open>url_c\<close> of \<open>online_env\<close>: the specification's lookup
  passes over the second page, which has no paragraph, and answers with the third; the
  code answers with the title and source of the second.
\<close>

theorem web_lookup_title_only_counterexample:
  "spec_web_lookup online_env [url_a, url_b, url_c]
     = Some (lit ''C'' @ nl2 @ lit ''third page'' @ nl2 @ lit ''Source: http://c.example'')
   \<and> snd (google_first_snippet online_env (lit ''ada''))
       = Inr (Some (lit ''B'' @ nl2 @ lit ''Source: http://b.example''))"
  by (simp add: google_first_snippet_result spec_candidate_def candidate_result_def
        render_page_def env_defs text_defs nl2_def)

text \<open>
  Claim C3, amended. For every query and every list of candidate URLs that URL
  discovery yields, the web lookup skips the candidates whose fetch raises, whose
  status is not 200 or whose page does not parse, and returns the text of the first
  candidate left: title, paragraph and source URL, or title and source URL alone when
  the stripped paragraph is empty. When no candidate is left, or the search module is
  unavailable, or URL discovery raises, the result is \<open>None\<close>.
\<close>

theorem web_lookup_first_fetched_page:
  "(google_search E = Some search \<and> search q = Inr urls
      \<longrightarrow> snd (google_first_snippet E q) = Inr (first_result E urls))
   \<and> snd (fetch_loop E urls) = Inr (first_result E urls)
   \<and> snd (fetch_snippet E url) = Inr (candidate_result E url)
   \<and> (google_search E = None \<longrightarrow> snd (google_first_snippet E q) = Inr None)
   \<and> (google_search E = Some search \<and> search q = Inl e
        \<longrightarrow> snd (google_first_snippet E q) = Inr None)
   \<and> ((\<forall>u \<in> set urls. candidate_result E u = None) \<longrightarrow> first_result E urls = None)
   \<and> ((\<forall>u \<in> set pre. candidate_result E u = None) \<and> candidate_result E url = Some t
        \<longrightarrow> first_result E (pre @ url # post) = Some t)
   \<and> (requests_get E url = Inl e \<longrightarrow> candidate_result E url = None)
   \<and> (requests_get E url = Inr resp \<and> status_code resp \<noteq> 200
        \<longrightarrow> candidate_result E url = None)
   \<and> (requests_get E url = Inr resp \<and> status_code resp = 200 \<and> soup resp = Inl e
        \<longrightarrow> candidate_result E url = None)
   \<and> (requests_get E url = Inr resp \<and> status_code resp = 200 \<and> soup resp = Inr pg
        \<longrightarrow> candidate_result E url = Some (render_page E url pg))"
  by (simp add: google_first_snippet_result fetch_loop_result fetch_snippet_result
        first_result_None first_result_first candidate_result_def)

theorem web_lookup_first_fetched_page_witness:
  "google_search online_env \<noteq> None
   \<and> candidate_result online_env url_a = None
   \<and> snd (google_first_snippet online_env (lit ''ada''))
       = Inr (Some (lit ''B'' @ nl2 @ lit ''Source: http://b.example''))"
proof -
  obtain search where s: "google_search online_env = Some search"
    and u: "search (lit ''ada'') = Inr [url_a, url_b, url_c]"
    by (simp add: env_defs)
  have a: "candidate_result online_env url_a = None"
    by (simp add: candidate_result_def env_defs)
  have r: "first_result online_env [url_a, url_b, url_c]
             = Some (lit ''B'' @ nl2 @ lit ''Source: http://b.example'')"
    by (simp add: candidate_result_def render_page_def env_defs text_defs nl2_def)
  show ?thesis
    using web_lookup_first_fetched_page
      [of online_env search "lit ''ada''" "[url_a, url_b, url_c]"] s u a r
    by simp
qed

text \<open>
  Claim C4. The question block of \<open>process_command\<close> runs the resolver chain and
  presents its outcome. The chain is sequential and stops at the first success: a
  non-empty result of the structured lookup is \<open>Found\<close> with source \<open>Structured\<close>,
  and the only events are the two calls of the structured lookup (the web lookup is
  not called); when the structured lookup returns \<open>None\<close> and the web lookup a
  non-empty text, the outcome is that text with source \<open>Web\<close>; when both return
  \<open>None\<close> the outcome is \<open>NotFound\<close>.
\<close>

theorem resolver_fallback_chain:
  "pc_question E q
     = io_then (emits [Log (lit ''Question detected: '' @ q), Speak (lit ''Let me look that up.'')])
         (io_bind (resolve_spec E q) (present_outcome E q))
   \<and> (snd (search_wikipedia E q) = Inr (Some t) \<and> t \<noteq> []
        \<longrightarrow> resolve_spec E q = (fst (search_wikipedia E q), Inr (Found t Structured)))
   \<and> set (fst (search_wikipedia E q))
        \<subseteq> {WikipediaSetLang (lit ''en''), WikipediaSummary q WIKI_SENTENCES}
   \<and> (snd (search_wikipedia E q) = Inr None
        \<and> snd (google_first_snippet E q) = Inr (Some x) \<and> x \<noteq> []
        \<longrightarrow> resolve_spec E q
            = (fst (search_wikipedia E q) @ fst (google_first_snippet E q), Inr (Found x Web)))
   \<and> (snd (search_wikipedia E q) = Inr None \<and> snd (google_first_snippet E q) = Inr None
        \<longrightarrow> resolve_spec E q
            = (fst (search_wikipedia E q) @ fst (google_first_snippet E q), Inr NotFound))"
proof -
  have 1: "pc_question E q
     = io_then (emits [Log (lit ''Question detected: '' @ q), Speak (lit ''Let me look that up.'')])
         (io_bind (resolve_spec E q) (present_outcome E q))"
    by (rule pc_question_resolve)
  have 2: "snd (search_wikipedia E q) = Inr (Some t) \<and> t \<noteq> []
        \<longrightarrow> resolve_spec E q = (fst (search_wikipedia E q), Inr (Found t Structured))"
    by (auto intro!: pair_eqI simp: resolve_spec_def io_proj io_return_def text_of_def)
  have 3: "set (fst (search_wikipedia E q))
        \<subseteq> {WikipediaSetLang (lit ''en''), WikipediaSummary q WIKI_SENTENCES}"
    by (rule search_wikipedia_event_set)
  have 4: "snd (search_wikipedia E q) = Inr None
        \<and> snd (google_first_snippet E q) = Inr (Some x) \<and> x \<noteq> []
        \<longrightarrow> resolve_spec E q
            = (fst (search_wikipedia E q) @ fst (google_first_snippet E q), Inr (Found x Web))"
    by (auto intro!: pair_eqI simp: resolve_spec_def io_proj io_return_def text_of_def)
  have 5: "snd (search_wikipedia E q) = Inr None \<and> snd (google_first_snippet E q) = Inr None
        \<longrightarrow> resolve_spec E q
            = (fst (search_wikipedia E q) @ fst (google_first_snippet E q), Inr NotFound)"
    by (auto intro!: pair_eqI simp: resolve_spec_def io_proj io_return_def text_of_def)
  from 1 2 3 4 5 show ?thesis by blast
qed

theorem resolver_fallback_chain_witness:
  "resolve_spec online_env (lit ''who is ada'')
     = ([WikipediaSetLang (lit ''en''), WikipediaSummary (lit ''who is ada'') 2],
        Inr (Found (lit ''Ada Lovelace was a mathematician.'') Structured))
   \<and> snd (resolve_spec online_env (lit ''who is bob''))
       = Inr (Found (lit ''B'' @ nl2 @ lit ''Source: http://b.example'') Web)
   \<and> snd (resolve_spec offline_env (lit ''who is bob'')) = Inr NotFound"
proof -
  have w1: "search_wikipedia online_env (lit ''who is ada'')
     = ([WikipediaSetLang (lit ''en''), WikipediaSummary (lit ''who is ada'') 2],
        Inr (Some (lit ''Ada Lovelace was a mathematician.'')))"
    by (simp add: search_wikipedia_def io_defs env_defs WIKI_SENTENCES_def)
  have w2: "snd (search_wikipedia online_env (lit ''who is bob'')) = Inr None"
    by (simp add: search_wikipedia_result env_defs)
  have g2: "snd (google_first_snippet online_env (lit ''who is bob''))
     = Inr (Some (lit ''B'' @ nl2 @ lit ''Source: http://b.example''))"
    by (simp add: google_first_snippet_result candidate_result_def render_page_def env_defs
          text_defs nl2_def)
  have w3: "snd (search_wikipedia offline_env (lit ''who is bob'')) = Inr None"
    by (simp add: search_wikipedia_result env_defs)
  have g3: "snd (google_first_snippet offline_env (lit ''who is bob'')) = Inr None"
    by (simp add: google_first_snippet_result env_defs)
  note A = resolver_fallback_chain
             [of online_env "lit ''who is ada''" "lit ''Ada Lovelace was a mathematician.''"]
  note B = resolver_fallback_chain
             [of online_env "lit ''who is bob''" _ "lit ''B'' @ nl2 @ lit ''Source: http://b.example''"]
  note C = resolver_fallback_chain [of offline_env "lit ''who is bob''"]
  have r1: "resolve_spec online_env (lit ''who is ada'')
     = ([WikipediaSetLang (lit ''en''), WikipediaSummary (lit ''who is ada'') 2],
        Inr (Found (lit ''Ada Lovelace was a mathematician.'') Structured))"
    using conjunct1 [OF conjunct2 [OF A]] w1 by simp
  have r2: "snd (resolve_spec online_env (lit ''who is bob''))
       = Inr (Found (lit ''B'' @ nl2 @ lit ''Source: http://b.example'') Web)"
    using conjunct1 [OF conjunct2 [OF conjunct2 [OF conjunct2 [OF B]]]] w2 g2
    by (simp add: nl2_def)
  have r3: "snd (resolve_spec offline_env (lit ''who is bob'')) = Inr NotFound"
    using conjunct2 [OF conjunct2 [OF conjunct2 [OF conjunct2 [OF C]]]] w3 g3 by simp
  from r1 r2 r3 show ?thesis by blast
qed

text \<open>
  Claim C8. Neither lookup stage lets an exception out: the structured lookup, the
  body and the loop over the candidates, and the web lookup all return a value in
  every world. A raising Wikipedia call makes the structured lookup return \<open>None\<close>;
  a raising URL discovery makes the web lookup return \<open>None\<close>; a raising fetch or
  parse makes the candidate yield nothing, and when every fetch raises the web lookup
  returns \<open>None\<close>. The question block of the dispatcher, which calls both stages,
  returns normally.
\<close>

theorem lookup_failures_are_caught:
  "(\<exists>r. snd (search_wikipedia E q) = Inr r)
   \<and> (\<exists>r. snd (fetch_snippet E url) = Inr r)
   \<and> (\<exists>r. snd (fetch_loop E urls) = Inr r)
   \<and> (\<exists>r. snd (google_first_snippet E q) = Inr r)
   \<and> (wikipedia_set_lang E = Some e \<or> wikipedia_summary E q = Inl e
        \<longrightarrow> snd (search_wikipedia E q) = Inr None)
   \<and> (google_search E = Some search \<and> search q = Inl e
        \<longrightarrow> snd (google_first_snippet E q) = Inr None)
   \<and> (requests_get E url = Inl e \<longrightarrow> snd (fetch_snippet E url) = Inr None)
   \<and> (requests_get E url = Inr resp \<and> soup resp = Inl e
        \<longrightarrow> snd (fetch_snippet E url) = Inr None)
   \<and> (google_search E = Some search \<and> search q = Inr urls
        \<and> (\<forall>u \<in> set urls. \<exists>e. requests_get E u = Inl e)
        \<longrightarrow> snd (google_first_snippet E q) = Inr None)
   \<and> snd (pc_question E q) = Inr ()"
proof -
  have 5: "wikipedia_set_lang E = Some e \<or> wikipedia_summary E q = Inl e
        \<longrightarrow> snd (search_wikipedia E q) = Inr None"
    by (auto simp: search_wikipedia_result split: option.splits)
  have 8: "requests_get E url = Inr resp \<and> soup resp = Inl e
        \<longrightarrow> snd (fetch_snippet E url) = Inr None"
    by (simp add: fetch_snippet_result candidate_result_def)
  have 9: "google_search E = Some search \<and> search q = Inr urls
        \<and> (\<forall>u \<in> set urls. \<exists>e. requests_get E u = Inl e)
        \<longrightarrow> snd (google_first_snippet E q) = Inr None"
    by (auto simp: google_first_snippet_result candidate_result_def intro!: first_result_None)
  obtain es out where r: "resolve_spec E q = (es, Inr out)"
    using resolve_spec_total [of E q] by (cases "resolve_spec E q") auto
  have 10: "snd (pc_question E q) = Inr ()"
    by (cases "(E, q, out)" rule: present_outcome.cases)
       (simp_all add: pc_question_resolve io_proj r emits_def)
  show ?thesis
    using 5 8 9 10
    by (simp add: search_wikipedia_result fetch_snippet_result fetch_loop_result
          google_first_snippet_result candidate_result_def)
qed

theorem lookup_failures_are_caught_witness:
  "wikipedia_summary offline_env (lit ''turing'') = Inl (PyException (lit ''ConnectionError''))
   \<and> snd (search_wikipedia offline_env (lit ''turing'')) = Inr None
   \<and> snd (google_first_snippet online_env (lit ''down'')) = Inr None
   \<and> snd (fetch_snippet offline_env url_a) = Inr None"
proof -
  have w: "wikipedia_summary offline_env (lit ''turing'') = Inl (PyException (lit ''ConnectionError''))"
    by (simp add: env_defs)
  obtain search where s: "google_search online_env = Some search"
    and u: "search (lit ''down'') = Inl (PyException (lit ''HTTPError''))"
    by (simp add: env_defs)
  have g: "requests_get offline_env url_a = Inl (PyException (lit ''ConnectionError''))"
    by (simp add: env_defs)
  show ?thesis
    using lookup_failures_are_caught
            [of offline_env "lit ''turing''" url_a _ "PyException (lit ''ConnectionError'')"]
          lookup_failures_are_caught
            [of online_env "lit ''down''" _ _ "PyException (lit ''HTTPError'')" search]
          w s u g
    by simp
qed

section \<open>Command dispatch: claims\<close>

lemma first_match_chain:
  "(case first_match [(c1, i1, b1), (c2, i2, b2), (c3, i3, b3), (c4, i4, b4), (c5, i5, b5),
                      (c6, i6, b6), (c7, i7, b7), (c8, i8, b8), (True, i9, b9)]
    of None \<Rightarrow> d | Some (i, block) \<Rightarrow> block)
     = (if c1 then b1 else if c2 then b2 else if c3 then b3 else if c4 then b4
        else if c5 then b5 else if c6 then b6 else if c7 then b7 else if c8 then b8 else b9)"
  by (simp add: first_match_def)

lemma first_match_total:
  "first_match [(c1, i1, b1), (c2, i2, b2), (c3, i3, b3), (c4, i4, b4), (c5, i5, b5),
                (c6, i6, b6), (c7, i7, b7), (c8, i8, b8), (True, i9, b9)] \<noteq> None"
  by (auto simp: first_match_def)

lemma process_command_first_match:
  "process_command E text0
     = (case classify E text0 of None \<Rightarrow> io_return () | Some (i, block) \<Rightarrow> block)"
proof (cases "py_strip (ucd E) text0 = []")
  case True
  then show ?thesis by (simp add: process_command_def classify_def)
next
  case False
  have "classify E text0
          = first_match (dispatch_table E (py_strip (ucd E) text0) (command_lower (ucd E) text0))"
    using False by (simp only: classify_def if_False)
  moreover have "process_command E text0
          = (case first_match
                    (dispatch_table E (py_strip (ucd E) text0) (command_lower (ucd E) text0))
             of None \<Rightarrow> io_return () | Some (i, block) \<Rightarrow> block)"
    using False
    by (simp only: process_command_def dispatch_table_def command_lower_def Let_def if_False
          first_match_chain)
  ultimately show ?thesis by simp
qed

lemma classify_None: "(classify E text0 = None) = (py_strip (ucd E) text0 = [])"
  by (simp only: classify_def dispatch_table_def first_match_total split: if_splits) simp

lemma classify_open_folder:
  "py_strip (ucd E) text0 \<noteq> []
     \<Longrightarrow> startswith (command_lower (ucd E) text0) (lit ''open folder'')
         \<or> startswith (command_lower (ucd E) text0) (lit ''open directory'')
     \<Longrightarrow> classify E text0 = Some (OpenFolder, pc_open_folder E (py_strip (ucd E) text0))"
  by (simp add: classify_def dispatch_table_def first_match_def)

lemma py_split_sep_1:
  "py_split_sep sep 1 s
     = (if sep \<in> set s
        then [takeWhile (\<lambda>c. c \<noteq> sep) s, tl (dropWhile (\<lambda>c. c \<noteq> sep) s)]
        else [s])"
  by simp

lemma py_split_sep_2:
  "py_split_sep sep 2 s
     = (if sep \<in> set s
        then takeWhile (\<lambda>c. c \<noteq> sep) s # py_split_sep sep 1 (tl (dropWhile (\<lambda>c. c \<noteq> sep) s))
        else [s])"
  by (simp add: numeral_2_eq_2)

lemma third_part:
  "(if length (py_split_sep sep 2 s) \<ge> 3 then py_split_sep sep 2 s ! 2 else d)
     = (if sep \<in> set s \<and> sep \<in> set (tl (dropWhile (\<lambda>c. c \<noteq> sep) s))
        then tl (dropWhile (\<lambda>c. c \<noteq> sep) (tl (dropWhile (\<lambda>c. c \<noteq> sep) s)))
        else d)"
  by (simp add: py_split_sep_2 py_split_sep_1)

lemma pc_open_folder_argument:
  "pc_open_folder E text
     = io_bind (open_folder E (folder_argument E text)) (\<lambda>(ok, msg).
         if ok then emits [Log (lit ''Opened folder: '' @ folder_argument E text),
                           Speak (lit ''Opened folder.'')]
         else emits [Log (lit ''Failed to open folder: '' @ msg),
                     Speak (lit ''I could not open that folder.'')])"
  by (simp only: pc_open_folder_def Let_def third_part folder_argument_def after_space_def)

lemma command_lower_blank:
  assumes "py_strip U text0 = []"
  shows "command_lower U text0 = []"
proof -
  have "py_lower U [] = []" by (simp add: py_lower_def)
  moreover have "py_strip U [] = []" by (simp add: py_strip_def)
  ultimately show ?thesis unfolding command_lower_def assms by simp
qed

lemma process_command_gate:
  assumes "py_strip (ucd E) text0 \<noteq> []" and "\<not> open_rule (command_lower (ucd E) text0)"
  shows "py_contains (command_lower (ucd E) text0) (lit ''shutdown'')
           \<Longrightarrow> process_command E text0 = pc_shutdown E (command_lower (ucd E) text0)"
    and "\<not> py_contains (command_lower (ucd E) text0) (lit ''shutdown'')
           \<Longrightarrow> py_contains (command_lower (ucd E) text0) (lit ''restart'')
               \<or> py_contains (command_lower (ucd E) text0) (lit ''reboot'')
           \<Longrightarrow> process_command E text0 = pc_restart E (command_lower (ucd E) text0)"
  using assms
  by (simp_all add: process_command_def command_lower_def open_rule_def Let_def)

lemmas eval_defs = process_command_def pc_open_folder_def pc_open_def pc_shutdown_def
  pc_restart_def open_folder_def open_application_def system_shutdown_def system_restart_def
  system_name_def subprocess_Popen_def os_startfile_def Let_def

text \<open>
  Claim C1, as the specification states it: every command text whose lower-case form
  contains \<open>shutdown\<close> goes through the confirmation gate. It fails for texts that an
  earlier rule takes: \<open>open shutdown\<close> contains \<open>shutdown\<close> and no confirmation, and
  the dispatcher emits no confirmation request but starts the program of that name;
  \<open>open shutdown confirm\<close> contains both words, and \<open>system_shutdown\<close> is not
  called.
\<close>

theorem open_shutdown_counterexample:
  "py_contains (command_lower (ucd offline_env) (lit ''open shutdown'')) (lit ''shutdown'')
   \<and> \<not> confirmed (command_lower (ucd offline_env) (lit ''open shutdown''))
   \<and> process_command offline_env (lit ''open shutdown'')
       = ([Popen [lit ''shutdown''] False, Log (lit ''Opened application: shutdown''),
           Speak (lit ''Opening shutdown'')], Inr ())
   \<and> py_contains (command_lower (ucd offline_env) (lit ''open shutdown confirm'')) (lit ''confirm'')
   \<and> process_command offline_env (lit ''open shutdown confirm'')
       = ([Popen [lit ''shutdown confirm''] False,
           Log (lit ''Opened application: shutdown confirm''),
           Speak (lit ''Opening shutdown confirm'')], Inr ())"
  by (simp add: command_lower_def confirmed_def eval_defs py_split_sep_1 io_defs env_defs
        text_defs)

text \<open>
  Claim C1, amended. For every command text that the two \<open>open\<close> rules do not
  take: if its lower-case form contains \<open>shutdown\<close>, then with
  \<open>confirm\<close> or \<open>yes\<close> in it \<open>system_shutdown\<close> is called with \<open>confirm = True\<close>
  and its message logged, and without them nothing is done but to log and speak the
  request for confirmation. The same holds with \<open>system_restart\<close> for a text that
  contains \<open>restart\<close> or \<open>reboot\<close> and not \<open>shutdown\<close>. Called without
  confirmation, either collaborator does nothing and reports that confirmation is
  required; called with it on Linux, it starts the \<open>shutdown\<close> program.
\<close>

theorem shutdown_restart_confirmation_gate:
  "(\<not> open_rule (command_lower (ucd E) text0)
      \<and> py_contains (command_lower (ucd E) text0) (lit ''shutdown'')
      \<longrightarrow> process_command E text0
          = (if confirmed (command_lower (ucd E) text0)
             then io_bind (system_shutdown E True) (\<lambda>(ok, msg).
                    emits [Log msg, Speak (lit ''Shutting down. Goodbye.'')])
             else emits
                    [Log (lit ''Shutdown requested - confirmation required. Say 'shutdown confirm' to proceed.''),
                     Speak (lit ''Shutdown requested. Say shutdown confirm to proceed.'')]))
   \<and> (\<not> open_rule (command_lower (ucd E) text0)
      \<and> \<not> py_contains (command_lower (ucd E) text0) (lit ''shutdown'')
      \<and> (py_contains (command_lower (ucd E) text0) (lit ''restart'')
           \<or> py_contains (command_lower (ucd E) text0) (lit ''reboot''))
      \<longrightarrow> process_command E text0
          = (if confirmed (command_lower (ucd E) text0)
             then io_bind (system_restart E True) (\<lambda>(ok, msg).
                    emits [Log msg, Speak (lit ''Restarting now.'')])
             else emits
                    [Log (lit ''Restart requested - confirmation required. Say 'restart confirm' to proceed.''),
                     Speak (lit ''Restart requested. Say restart confirm to proceed.'')]))
   \<and> system_shutdown E False = io_return (False, lit ''Confirmation required'')
   \<and> system_restart E False = io_return (False, lit ''Confirmation required'')
   \<and> (system_name E = lit ''linux''
        \<longrightarrow> fst (system_shutdown E True)
              = [Popen [lit ''shutdown'', lit ''-h'', lit ''now''] False]
            \<and> fst (system_restart E True)
              = [Popen [lit ''shutdown'', lit ''-r'', lit ''now''] False])"
proof -
  have blank: "py_strip (ucd E) text0 = []
      \<longrightarrow> \<not> py_contains (command_lower (ucd E) text0) (lit ''shutdown'')
          \<and> \<not> py_contains (command_lower (ucd E) text0) (lit ''restart'')
          \<and> \<not> py_contains (command_lower (ucd E) text0) (lit ''reboot'')"
    by (simp add: command_lower_blank)
  have 1: "\<not> open_rule (command_lower (ucd E) text0)
      \<and> py_contains (command_lower (ucd E) text0) (lit ''shutdown'')
      \<longrightarrow> process_command E text0 = pc_shutdown E (command_lower (ucd E) text0)"
    using process_command_gate(1) [of E text0] blank by blast
  have 2: "\<not> open_rule (command_lower (ucd E) text0)
      \<and> \<not> py_contains (command_lower (ucd E) text0) (lit ''shutdown'')
      \<and> (py_contains (command_lower (ucd E) text0) (lit ''restart'')
           \<or> py_contains (command_lower (ucd E) text0) (lit ''reboot''))
      \<longrightarrow> process_command E text0 = pc_restart E (command_lower (ucd E) text0)"
    using process_command_gate(2) [of E text0] blank by blast
  have 3: "system_shutdown E False = io_return (False, lit ''Confirmation required'')"
    by (simp add: system_shutdown_def)
  have 4: "system_restart E False = io_return (False, lit ''Confirmation required'')"
    by (simp add: system_restart_def)
  have 5: "system_name E = lit ''linux''
        \<longrightarrow> fst (system_shutdown E True)
              = [Popen [lit ''shutdown'', lit ''-h'', lit ''now''] False]
            \<and> fst (system_restart E True)
              = [Popen [lit ''shutdown'', lit ''-r'', lit ''now''] False]"
    by (simp add: system_shutdown_def system_restart_def subprocess_Popen_def io_defs
             split: option.splits)
  show ?thesis
    using 1 2 3 4 5 unfolding pc_shutdown_def pc_restart_def confirmed_def by simp
qed

theorem shutdown_restart_confirmation_gate_witness:
  "process_command offline_env (lit ''shutdown'')
     = ([Log (lit ''Shutdown requested - confirmation required. Say 'shutdown confirm' to proceed.''),
         Speak (lit ''Shutdown requested. Say shutdown confirm to proceed.'')], Inr ())
   \<and> process_command offline_env (lit ''Shutdown confirm'')
     = ([Popen [lit ''shutdown'', lit ''-h'', lit ''now''] False,
         Log (lit ''Shutdown initiated''), Speak (lit ''Shutting down. Goodbye.'')], Inr ())
   \<and> process_command offline_env (lit ''please reboot, yes'')
     = ([Popen [lit ''shutdown'', lit ''-r'', lit ''now''] False,
         Log (lit ''Restart initiated''), Speak (lit ''Restarting now.'')], Inr ())"
proof -
  note A = shutdown_restart_confirmation_gate [of offline_env "lit ''shutdown''"]
  note B = shutdown_restart_confirmation_gate [of offline_env "lit ''Shutdown confirm''"]
  note C = shutdown_restart_confirmation_gate [of offline_env "lit ''please reboot, yes''"]
  have a: "process_command offline_env (lit ''shutdown'')
     = ([Log (lit ''Shutdown requested - confirmation required. Say 'shutdown confirm' to proceed.''),
         Speak (lit ''Shutdown requested. Say shutdown confirm to proceed.'')], Inr ())"
    using conjunct1 [OF A]
    by (simp add: command_lower_def open_rule_def confirmed_def env_defs text_defs emits_def)
  have b: "process_command offline_env (lit ''Shutdown confirm'')
     = ([Popen [lit ''shutdown'', lit ''-h'', lit ''now''] False,
         Log (lit ''Shutdown initiated''), Speak (lit ''Shutting down. Goodbye.'')], Inr ())"
    using conjunct1 [OF B]
    by (simp add: command_lower_def open_rule_def confirmed_def system_shutdown_def
          system_name_def subprocess_Popen_def io_defs env_defs text_defs)
  have c: "process_command offline_env (lit ''please reboot, yes'')
     = ([Popen [lit ''shutdown'', lit ''-r'', lit ''now''] False,
         Log (lit ''Restart initiated''), Speak (lit ''Restarting now.'')], Inr ())"
    using conjunct1 [OF conjunct2 [OF C]]
    by (simp add: command_lower_def open_rule_def confirmed_def system_restart_def
          system_name_def subprocess_Popen_def io_defs env_defs text_defs)
  from a b c show ?thesis by blast
qed

text \<open>
  Claim C5, as the specification states it: the path argument is the third
  whitespace-delimited token. It fails for a path with a space in it: the third token
  of \<open>open folder my documents\<close> is \<open>my\<close>, and the folder that is opened is
  \<open>my documents\<close>.
\<close>

theorem open_folder_argument_counterexample:
  "py_split_ws (ucd offline_env) (lit ''open folder my documents'') ! 2 = lit ''my''
   \<and> process_command offline_env (lit ''open folder my documents'')
       = ([Popen [lit ''xdg-open'', lit ''my documents''] False,
           Log (lit ''Opened folder: my documents''), Speak (lit ''Opened folder.'')], Inr ())"
  by (simp add: py_split_ws_def eval_defs py_split_sep_2 py_split_sep_1 io_defs env_defs text_defs)

text \<open>
  Claim C5, amended. \<open>process_command\<close> runs the block of the first row of the rule
  table whose guard holds on the lower-case text, and no other; only a blank text
  selects no row. A text whose lower-case form starts with \<open>open folder\<close> or
  \<open>open directory\<close> selects \<open>OpenFolder\<close>, although the guard of \<open>OpenAppOrUrl\<close>
  holds of it too. The path argument of \<open>OpenFolder\<close> is what follows the second
  space character of the text, and the home directory when there are fewer than two.
  For \<open>open folder downloads\<close> the intent is \<open>OpenFolder\<close> and the argument is
  \<open>downloads\<close>.
\<close>

theorem classification_first_match:
  "process_command E text0
     = (case classify E text0 of None \<Rightarrow> io_return () | Some (i, block) \<Rightarrow> block)
   \<and> (classify E text0 = None) = (py_strip (ucd E) text0 = [])
   \<and> (py_strip (ucd E) text0 \<noteq> []
        \<and> (startswith (command_lower (ucd E) text0) (lit ''open folder'')
             \<or> startswith (command_lower (ucd E) text0) (lit ''open directory''))
        \<longrightarrow> classify E text0 = Some (OpenFolder, pc_open_folder E (py_strip (ucd E) text0)))
   \<and> pc_open_folder E text
        = io_bind (open_folder E (folder_argument E text)) (\<lambda>(ok, msg).
            if ok then emits [Log (lit ''Opened folder: '' @ folder_argument E text),
                              Speak (lit ''Opened folder.'')]
            else emits [Log (lit ''Failed to open folder: '' @ msg),
                        Speak (lit ''I could not open that folder.'')])
   \<and> classify E (lit ''open folder downloads'')
        = Some (OpenFolder, pc_open_folder E (lit ''open folder downloads''))
   \<and> startswith (command_lower (ucd E) (lit ''open folder downloads'')) (lit ''open '')
   \<and> folder_argument E (lit ''open folder downloads'') = lit ''downloads''"
proof -
  have ex: "py_strip (ucd E) (lit ''open folder downloads'') = lit ''open folder downloads''"
    by (simp add: text_defs)
  have lo: "command_lower (ucd E) (lit ''open folder downloads'') = lit ''open folder downloads''"
    by (simp add: command_lower_def text_defs)
  have 5: "classify E (lit ''open folder downloads'')
        = Some (OpenFolder, pc_open_folder E (lit ''open folder downloads''))"
    using classify_open_folder [of E "lit ''open folder downloads''"] ex lo
    by (simp add: startswith_def)
  have 6: "folder_argument E (lit ''open folder downloads'') = lit ''downloads''"
    by (simp add: folder_argument_def after_space_def)
  have 7: "startswith (command_lower (ucd E) (lit ''open folder downloads'')) (lit ''open '')"
    using lo by (simp add: startswith_def)
  show ?thesis
    using process_command_first_match [of E text0] classify_None [of E text0]
      classify_open_folder [of E text0] pc_open_folder_argument [of E "text"] 5 6 7
    by blast
qed

theorem classification_first_match_witness:
  "process_command offline_env (lit ''open folder downloads'')
     = ([Popen [lit ''xdg-open'', lit ''downloads''] False,
         Log (lit ''Opened folder: downloads''), Speak (lit ''Opened folder.'')], Inr ())
   \<and> process_command offline_env (lit ''open folder'')
     = ([Popen [lit ''xdg-open'', lit ''/home/user''] False,
         Log (lit ''Opened folder: /home/user''), Speak (lit ''Opened folder.'')], Inr ())"
proof -
  note A = classification_first_match [of offline_env "lit ''open folder downloads''"
             "lit ''open folder downloads''"]
  note B = classification_first_match [of offline_env "lit ''open folder''" "lit ''open folder''"]
  have a: "pc_open_folder offline_env (lit ''open folder downloads'')
     = ([Popen [lit ''xdg-open'', lit ''downloads''] False,
         Log (lit ''Opened folder: downloads''), Speak (lit ''Opened folder.'')], Inr ())"
    using conjunct2 [OF conjunct2 [OF conjunct2 [OF conjunct2 [OF conjunct2 [OF conjunct2 [OF A]]]]]]
      conjunct1 [OF conjunct2 [OF conjunct2 [OF conjunct2 [OF A]]]]
    by (simp add: open_folder_def system_name_def subprocess_Popen_def io_defs env_defs text_defs)
  have sb: "py_strip (ucd offline_env) (lit ''open folder'') = lit ''open folder''"
    by (simp add: text_defs env_defs)
  have lb: "command_lower (ucd offline_env) (lit ''open folder'') = lit ''open folder''"
    by (simp add: command_lower_def text_defs env_defs)
  have fb: "folder_argument offline_env (lit ''open folder'') = lit ''/home/user''"
    by (simp add: folder_argument_def after_space_def env_defs)
  have cb: "classify offline_env (lit ''open folder'')
              = Some (OpenFolder, pc_open_folder offline_env (lit ''open folder''))"
    using conjunct1 [OF conjunct2 [OF conjunct2 [OF B]]] sb lb by (simp add: startswith_def)
  have b: "pc_open_folder offline_env (lit ''open folder'')
     = ([Popen [lit ''xdg-open'', lit ''/home/user''] False,
         Log (lit ''Opened folder: /home/user''), Speak (lit ''Opened folder.'')], Inr ())"
    using conjunct1 [OF conjunct2 [OF conjunct2 [OF conjunct2 [OF B]]]] fb
    by (simp add: open_folder_def system_name_def subprocess_Popen_def io_defs env_defs text_defs)
  have pa: "process_command offline_env (lit ''open folder downloads'')
              = pc_open_folder offline_env (lit ''open folder downloads'')"
    using conjunct1 [OF A] conjunct1 [OF conjunct2 [OF conjunct2 [OF conjunct2 [OF conjunct2 [OF A]]]]]
    by simp
  have pb: "process_command offline_env (lit ''open folder'')
              = pc_open_folder offline_env (lit ''open folder'')"
    using conjunct1 [OF B] cb by simp
  show ?thesis using a b pa pb by simp
qed

section \<open>Listening loop: claims\<close>














section \<open>Typed commands: claims\<close>

lemma star_ends_consumed:
  "r \<in> set (star_ends P s) \<Longrightarrow> \<exists>pre. s = pre @ r \<and> (\<forall>c \<in> set pre. P c)"
proof (induction s)
  case Nil
  then show ?case by simp
next
  case (Cons c cs)
  show ?case
  proof (cases "r = c # cs")
    case True
    then show ?thesis by simp
  next
    case False
    with Cons.prems have "P c" and "r \<in> set (star_ends P cs)"
      by (auto split: if_splits)
    with Cons.IH obtain pre where "cs = pre @ r" and "\<forall>x \<in> set pre. P x" by blast
    then have "c # cs = (c # pre) @ r \<and> (\<forall>x \<in> set (c # pre). P x)"
      using \<open>P c\<close> by simp
    then show ?thesis by blast
  qed
qed

lemma rx_match_consumed:
  "r \<in> set (rx_match rx s) \<Longrightarrow> \<exists>pre. s = pre @ r \<and> (\<forall>c \<in> set pre. rx_chars rx c)"
proof (induction rx arbitrary: s r)
  case Eps
  then show ?case by simp
next
  case (Chr P)
  then show ?case by (cases s) (auto split: if_splits)
next
  case (Star P)
  then show ?case using star_ends_consumed [of r P s] by simp
next
  case (Plus P)
  show ?case
  proof (cases s)
    case Nil
    with Plus show ?thesis by simp
  next
    case (Cons c cs)
    with Plus have "P c" and "r \<in> set (star_ends P cs)" by (auto split: if_splits)
    then obtain pre where "cs = pre @ r" and "\<forall>x \<in> set pre. P x"
      using star_ends_consumed by blast
    then have "s = (c # pre) @ r \<and> (\<forall>x \<in> set (c # pre). rx_chars (Plus P) x)"
      using \<open>P c\<close> Cons by simp
    then show ?thesis by blast
  qed
next
  case (Seq a b)
  from Seq.prems obtain m where m: "m \<in> set (rx_match a s)" and r: "r \<in> set (rx_match b m)"
    by auto
  from Seq.IH(1) [OF m] obtain p1 where p1: "s = p1 @ m" "\<forall>c \<in> set p1. rx_chars a c" by blast
  from Seq.IH(2) [OF r] obtain p2 where p2: "m = p2 @ r" "\<forall>c \<in> set p2. rx_chars b c" by blast
  have "s = (p1 @ p2) @ r \<and> (\<forall>c \<in> set (p1 @ p2). rx_chars (Seq a b) c)"
    using p1 p2 by auto
  then show ?case by blast
next
  case (Opt a)
  show ?case
  proof (cases "r \<in> set (rx_match a s)")
    case True
    from Opt.IH [OF True] show ?thesis by simp
  next
    case False
    with Opt.prems have "r = s" by simp
    then show ?thesis by simp
  qed
qed

lemma py_strip_Nil: "py_strip U s = [] \<Longrightarrow> \<forall>c \<in> set s. py_isspace U c"
proof -
  assume "py_strip U s = []"
  then have "dropWhile (py_isspace U) (rev (dropWhile (py_isspace U) s)) = []"
    by (simp add: py_strip_def)
  then have all: "\<forall>c \<in> set (dropWhile (py_isspace U) s). py_isspace U c"
    by (simp add: dropWhile_eq_Nil_conv)
  have "dropWhile (py_isspace U) s = []"
  proof (rule ccontr)
    assume ne: "dropWhile (py_isspace U) s \<noteq> []"
    then have "\<not> py_isspace U (hd (dropWhile (py_isspace U) s))" by (simp add: hd_dropWhile)
    moreover have "hd (dropWhile (py_isspace U) s) \<in> set (dropWhile (py_isspace U) s)"
      using ne by simp
    ultimately show False using all by blast
  qed
  then show ?thesis by (simp add: dropWhile_eq_Nil_conv)
qed

lemma wake_rx_chars:
  assumes "is_ascii c" and "rx_chars (wake_rx U) c \<or> py_isspace U c"
  shows "wake_char (ascii_lower c)"
proof -
  have punct: "ascii_lower 44 = 44" "ascii_lower 58 = 58" "ascii_lower 45 = 45"
    by (simp_all add: ascii_lower_def)
  have sp: "py_isspace U c \<Longrightarrow> wake_char (ascii_lower c)"
    using assms(1) by (auto simp: py_isspace_def wake_char_def ascii_lower_def)
  have "rx_chars (wake_rx U) c
          \<Longrightarrow> py_isspace U c \<or> ascii_lower c \<in> set (lit ''hey,jarvis:-'')"
    using assms(1) punct by (auto simp: wake_rx_def re_ieq_def)
  then show ?thesis
    using assms(2) sp unfolding wake_char_def by blast
qed

text \<open>
  When \<open>strip_wakeword\<close> leaves nothing of a text, the pattern and the final
  \<open>strip\<close> have consumed every character of it.
\<close>

lemma strip_wakeword_Nil_chars:
  assumes "t \<noteq> []" and "py_strip U t = t" and "strip_wakeword U t = []"
  shows "\<forall>c \<in> set t. rx_chars (wake_rx U) c \<or> py_isspace U c"
proof -
  have e: "py_strip U (re_sub_anchored (wake_rx U) t) = []"
    using assms by (simp add: strip_wakeword_def Let_def split: if_splits)
  have "rx_match (wake_rx U) t \<noteq> []"
    using e assms(1,2) by (auto simp: re_sub_anchored_def)
  then obtain r rs where m: "rx_match (wake_rx U) t = r # rs"
    by (cases "rx_match (wake_rx U) t") auto
  then have "py_strip U r = []" using e by (simp add: re_sub_anchored_def)
  then have ws: "\<forall>c \<in> set r. py_isspace U c" by (rule py_strip_Nil)
  have "r \<in> set (rx_match (wake_rx U) t)" using m by simp
  then obtain pre where "t = pre @ r" and "\<forall>c \<in> set pre. rx_chars (wake_rx U) c"
    using rx_match_consumed by blast
  then show ?thesis using ws by auto
qed

text \<open>A text of wakeword characters reaches the last block of \<open>process_command\<close>.\<close>

lemma bare_wakeword_falls_through:
  assumes "t \<noteq> []" and "py_strip (ucd E) t = t" and "strip_wakeword (ucd E) t = []"
    and "\<forall>i < length t. \<not> is_ascii (t ! i)
           \<longrightarrow> (\<forall>d \<in> set (db_lower (ucd E) t i). \<not> is_ascii d \<or> wake_char d)"
  shows "process_command E t = pc_web_search E t"
proof -
  define lowered where "lowered = py_strip (ucd E) (py_lower (ucd E) t)"
  have consumed: "\<forall>c \<in> set t. rx_chars (wake_rx (ucd E)) c \<or> py_isspace (ucd E) c"
    using assms(1,2,3) by (rule strip_wakeword_Nil_chars)
  have "\<forall>j < length t.
          (is_ascii (t ! j)
             \<longrightarrow> \<not> is_ascii (ascii_lower (t ! j)) \<or> wake_char (ascii_lower (t ! j)))
          \<and> (\<not> is_ascii (t ! j)
               \<longrightarrow> (\<forall>d \<in> set (db_lower (ucd E) t (0 + j)). \<not> is_ascii d \<or> wake_char d))"
    using consumed assms(4) wake_rx_chars [of _ "ucd E"] by simp
  then have "\<forall>d \<in> set (lower_from (ucd E) t 0 t). \<not> is_ascii d \<or> wake_char d"
    by (rule lower_from_chars)
  then have w: "\<forall>c \<in> set lowered. \<not> is_ascii c \<or> wake_char c"
    unfolding lowered_def py_lower_def using set_py_strip by blast
  note no = wake_chars_no_rule [OF w]
  show ?thesis
    unfolding process_command_def Let_def assms(2) lowered_def [symmetric]
    using assms(1) no by simp
qed

lemma ascii_text_rows: "list_all is_ascii t \<Longrightarrow> \<forall>i < length t. \<not> is_ascii (t ! i) \<longrightarrow> P i"
  by (simp add: list_all_length)

text \<open>
  Claim C10. On the typed path, when the stripped entry has the wakeword and
  \<open>strip_wakeword\<close> leaves nothing of it, \<open>on_command\<close> clears the entry, logs the
  text as it was entered and dispatches that text, wakeword included. No rule of
  \<open>process_command\<close> matches such a text, so the generic web-search block runs;
  this is proved for every text whose characters beyond ASCII, if it has any,
  lower-case to characters that are beyond ASCII or belong to the wakeword pattern
  (every ASCII text is one).
\<close>

theorem typed_bare_wakeword_dispatched:
  "(txt = py_strip (ucd E) entry \<and> has_wakeword (ucd E) txt
      \<and> strip_wakeword (ucd E) txt = []
    \<longrightarrow> on_command E entry
          = io_then (emits [EntryDelete])
              (io_then (emits [Log (lit ''Command: '' @ txt)]) (process_command E txt)))
   \<and> (txt = py_strip (ucd E) entry \<and> has_wakeword (ucd E) txt
      \<and> strip_wakeword (ucd E) txt = []
      \<and> (\<forall>i < length txt. \<not> is_ascii (txt ! i)
            \<longrightarrow> (\<forall>d \<in> set (db_lower (ucd E) txt i). \<not> is_ascii d \<or> wake_char d))
    \<longrightarrow> process_command E txt = pc_web_search E txt)
   \<and> (list_all is_ascii txt
    \<longrightarrow> (\<forall>i < length txt. \<not> is_ascii (txt ! i)
            \<longrightarrow> (\<forall>d \<in> set (db_lower (ucd E) txt i). \<not> is_ascii d \<or> wake_char d)))"
proof (intro conjI impI)
  assume h: "txt = py_strip (ucd E) entry \<and> has_wakeword (ucd E) txt
      \<and> strip_wakeword (ucd E) txt = []"
  then have e: "txt = py_strip (ucd E) entry" and w: "has_wakeword (ucd E) txt"
    and b: "strip_wakeword (ucd E) txt = []"
    by blast+
  have ne: "txt \<noteq> []" using w by (rule has_wakeword_nonempty)
  show "on_command E entry
          = io_then (emits [EntryDelete])
              (io_then (emits [Log (lit ''Command: '' @ txt)]) (process_command E txt))"
    unfolding on_command_def Let_def e [symmetric] using ne w b by simp
next
  assume h: "txt = py_strip (ucd E) entry \<and> has_wakeword (ucd E) txt
      \<and> strip_wakeword (ucd E) txt = []
      \<and> (\<forall>i < length txt. \<not> is_ascii (txt ! i)
            \<longrightarrow> (\<forall>d \<in> set (db_lower (ucd E) txt i). \<not> is_ascii d \<or> wake_char d))"
  then have e: "txt = py_strip (ucd E) entry" and w: "has_wakeword (ucd E) txt"
    and b: "strip_wakeword (ucd E) txt = []"
    and rows: "\<forall>i < length txt. \<not> is_ascii (txt ! i)
            \<longrightarrow> (\<forall>d \<in> set (db_lower (ucd E) txt i). \<not> is_ascii d \<or> wake_char d)"
    by blast+
  have ne: "txt \<noteq> []" using w by (rule has_wakeword_nonempty)
  have fixed: "py_strip (ucd E) txt = txt" unfolding e by (rule py_strip_idem)
  show "process_command E txt = pc_web_search E txt"
    using ne fixed b rows by (rule bare_wakeword_falls_through)
next
  assume "list_all is_ascii txt"
  then show "\<forall>i < length txt. \<not> is_ascii (txt ! i)
            \<longrightarrow> (\<forall>d \<in> set (db_lower (ucd E) txt i). \<not> is_ascii d \<or> wake_char d)"
    by (rule ascii_text_rows)
qed

theorem typed_bare_wakeword_dispatched_witness:
  "has_wakeword (ucd offline_env) (lit ''jarvis'')
   \<and> strip_wakeword (ucd offline_env) (lit ''jarvis'') = []
   \<and> on_command offline_env (lit ''jarvis'')
       = ([EntryDelete, Log (lit ''Command: jarvis''),
           Log (lit ''No direct action matched. Searching web for: jarvis''),
           Speak (lit ''Searching the web for jarvis''),
           WebbrowserOpen (lit ''https://www.google.com/search?q=jarvis''),
           Speak (lit ''I opened the browser with search results.'')], Inr ())"
proof -
  note A = typed_bare_wakeword_dispatched [of "lit ''jarvis''" offline_env "lit ''jarvis''"]
  have a: "list_all is_ascii (lit ''jarvis'')" by (simp add: is_ascii_def)
  have s: "lit ''jarvis'' = py_strip (ucd offline_env) (lit ''jarvis'')"
    by (simp add: env_defs text_defs)
  have w: "has_wakeword (ucd offline_env) (lit ''jarvis'')"
    by (simp add: has_wakeword_def normalize_text_def WAKEWORD_def env_defs text_defs)
  have b: "strip_wakeword (ucd offline_env) (lit ''jarvis'') = []"
    by (simp add: strip_wakeword_def wake_rx_def re_sub_anchored_def re_ieq_def env_defs
          text_defs)
  have p: "pc_web_search offline_env (lit ''jarvis'')
     = ([Log (lit ''No direct action matched. Searching web for: jarvis''),
         Speak (lit ''Searching the web for jarvis''),
         WebbrowserOpen (lit ''https://www.google.com/search?q=jarvis''),
         Speak (lit ''I opened the browser with search results.'')], Inr ())"
    by (simp add: pc_web_search_def google_search_url_def io_defs env_defs)
  have rows: "\<forall>i < length (lit ''jarvis''). \<not> is_ascii (lit ''jarvis'' ! i)
            \<longrightarrow> (\<forall>d \<in> set (db_lower (ucd offline_env) (lit ''jarvis'') i).
                   \<not> is_ascii d \<or> wake_char d)"
    using conjunct2 [OF conjunct2 [OF A]] a by blast
  have on: "on_command offline_env (lit ''jarvis'')
         = io_then (emits [EntryDelete])
             (io_then (emits [Log (lit ''Command: '' @ lit ''jarvis'')])
                (process_command offline_env (lit ''jarvis'')))"
    using conjunct1 [OF A] s w b by blast
  have pr: "process_command offline_env (lit ''jarvis'') = pc_web_search offline_env (lit ''jarvis'')"
    using conjunct1 [OF conjunct2 [OF A]] s w b rows by blast
  show ?thesis using w b on pr p by (simp add: io_defs)
qed

end
